theory Spec2Isabelle
  imports Main "HOL-Library.Word"
begin

section \<open>Data model of \<open>GlobalBuffer.h\<close>\<close>

text \<open>
  \<open>std::uint8_t\<close> is an 8-bit word. Values of \<open>std::size_t\<close> are natural numbers
  below \<open>2 ^ 64\<close> (an LP64 or LLP64 platform); where the source computes with them in a
  way that can leave this range, the wrap-around is written out with \<open>mod 2 ^ 64\<close>.
  A time point is the integer number of clock ticks since the epoch.
\<close>

type_synonym byte = "8 word"

definition size_max :: nat where
  "size_max = 2 ^ 64 - 1"

record FieldNames =
  source_name :: string
  timestamp_name :: string
  payload_name :: string

record BufferItem =
  source :: string
  timestamp :: int
  payload :: "byte list"
  fieldNames :: FieldNames

record Options =
  capacity :: nat
  memoryMapped :: bool
  backingFile :: string
  maxPayloadSize :: nat
  optFieldNames :: FieldNames

text \<open>The default member initialisers of \<open>FieldNames\<close> and \<open>Options\<close>.\<close>

definition default_FieldNames :: FieldNames where
  "default_FieldNames =
     \<lparr>source_name = ''source'', timestamp_name = ''timestamp'', payload_name = ''payload''\<rparr>"

definition default_Options :: Options where
  "default_Options =
     \<lparr>capacity = 1024, memoryMapped = False, backingFile = ''global_buffer.mmap'',
      maxPayloadSize = 4096, optFieldNames = default_FieldNames\<rparr>"

text \<open>\<open>QueueEntry::kInvalidSlot\<close> is \<open>std::numeric_limits<std::size_t>::max()\<close>.\<close>

definition kInvalidSlot :: nat where
  "kInvalidSlot = size_max"

record QueueEntry =
  item :: BufferItem
  payloadSize :: nat
  slotIndex :: nat

text \<open>
  The private members of \<open>GlobalBuffer\<close>; the trailing underscore of a member's
  name is written \<open>_m\<close>. The mapped view is \<open>None\<close> for a null
  pointer and otherwise the bytes of the mapped region. The mutex and the two condition
  variables have no field: every member function runs under the mutex from its first to
  its last statement, so each call is one atomic step on this record.
\<close>

record GlobalBuffer =
  options_m :: Options
  capacity_m :: nat
  fieldNames_m :: FieldNames
  queue_m :: "QueueEntry list"
  shutdown_m :: bool
  slotSize_m :: nat
  writeIndex_m :: nat
  mappedView_m :: "byte list option"
  mappedSize_m :: nat

text \<open>The two exception classes the source throws, with the message.\<close>

datatype error = invalid_argument string | runtime_error string

text \<open>
  How a call ends. \<open>Returned v\<close>: it returns \<open>v\<close>. \<open>Thrown e\<close>: it leaves by the
  exception \<open>e\<close>. \<open>Waiting\<close>: the predicate of its condition-variable wait is false, the
  caller stays suspended and the buffer is as it was. \<open>Fault\<close>: a \<open>memcpy\<close> would
  touch bytes outside the mapped region, which the source does not guard against and the
  language leaves undefined; the model stops there.
\<close>

datatype 'a outcome = Returned 'a | Thrown error | Waiting | Fault

section \<open>Construction\<close>

definition normalizeOptions :: "Options \<Rightarrow> Options" where
  "normalizeOptions input =
    (let result = input;
         result = (if capacity result = 0
                   then result\<lparr>capacity := capacity default_Options\<rparr> else result);
         result = (if maxPayloadSize result = 0
                   then result\<lparr>maxPayloadSize := maxPayloadSize default_Options\<rparr> else result);
         result = (if memoryMapped result \<and> backingFile result = []
                   then result\<lparr>backingFile := backingFile default_Options\<rparr> else result);
         fs = optFieldNames result;
         fs = (if source_name fs = []
               then fs\<lparr>source_name := source_name default_FieldNames\<rparr> else fs);
         fs = (if timestamp_name fs = []
               then fs\<lparr>timestamp_name := timestamp_name default_FieldNames\<rparr> else fs);
         fs = (if payload_name fs = []
               then fs\<lparr>payload_name := payload_name default_FieldNames\<rparr> else fs)
     in result\<lparr>optFieldNames := fs\<rparr>)"

text \<open>
  What the operating system answers to \<open>initializeMapping\<close> (the POSIX branch):
  \<open>open\<close>, \<open>ftruncate\<close> or \<open>mmap\<close> fails, or the file is mapped; then the region
  holds the file's earlier bytes, cut or zero-filled to the requested size.
\<close>

datatype mapping_env = OpenFails | TruncateFails | MmapFails | FileContent "byte list"

definition initializeMapping :: "mapping_env \<Rightarrow> nat \<Rightarrow> error + byte list" where
  "initializeMapping env mappedSize =
    (case env of
       OpenFails \<Rightarrow> Inl (runtime_error ''Failed to open backing file for memory-mapped buffer'')
     | TruncateFails \<Rightarrow>
         Inl (runtime_error ''Failed to resize backing file for memory-mapped buffer'')
     | MmapFails \<Rightarrow> Inl (runtime_error ''Failed to map backing file into memory'')
     | FileContent bs \<Rightarrow>
         Inr (take mappedSize bs @ replicate (mappedSize - length bs) 0))"

text \<open>The constructor \<open>GlobalBuffer::GlobalBuffer(const Options &)\<close>.\<close>

definition construct :: "Options \<Rightarrow> mapping_env \<Rightarrow> error + GlobalBuffer" where
  "construct options env =
    (let opts = normalizeOptions options;
         this = \<lparr>options_m = opts, capacity_m = capacity opts, fieldNames_m = optFieldNames opts,
                 queue_m = [], shutdown_m = False, slotSize_m = 0, writeIndex_m = 0,
                 mappedView_m = None, mappedSize_m = 0\<rparr>
     in if capacity_m this = 0
        then Inl (invalid_argument ''GlobalBuffer capacity must be greater than zero'')
        else if memoryMapped (options_m this)
        then if backingFile (options_m this) = []
             then Inl (invalid_argument
                        ''Backing file must be provided when memory mapping is enabled'')
             else if maxPayloadSize (options_m this) = 0
             then Inl (invalid_argument
                        ''Max payload size must be greater than zero when memory mapping is enabled'')
             else (let slot = (4 + maxPayloadSize (options_m this)) mod 2 ^ 64;
                       mapped = (slot * capacity_m this) mod 2 ^ 64
                   in case initializeMapping env mapped of
                        Inl e \<Rightarrow> Inl e
                      | Inr view \<Rightarrow>
                          Inr (this\<lparr>slotSize_m := slot, mappedSize_m := mapped,
                                    mappedView_m := Some view\<rparr>))
        else Inr this)"

text \<open>
  The second constructor delegates to the first with
  \<open>Options{capacity, memoryMapped, backingFile, maxPayloadSize}\<close>; the field names keep
  their default.
\<close>

definition construct_legacy ::
  "nat \<Rightarrow> bool \<Rightarrow> string \<Rightarrow> nat \<Rightarrow> mapping_env \<Rightarrow> error + GlobalBuffer" where
  "construct_legacy cap mm file maxPayload env =
     construct \<lparr>capacity = cap, memoryMapped = mm, backingFile = file,
                maxPayloadSize = maxPayload, optFieldNames = default_FieldNames\<rparr> env"

section \<open>The mapped region\<close>

text \<open>
  \<open>memcpy\<close> into and out of the region, for ranges inside it (the operations stop
  with \<open>Fault\<close> before a range outside it), and the 4-byte length header: a \<open>std::uint32_t\<close> in the byte order of the
  platform, taken little-endian here.
\<close>

definition store :: "byte list \<Rightarrow> nat \<Rightarrow> byte list \<Rightarrow> byte list" where
  "store view off bs = take off view @ bs @ drop (off + length bs) view"

definition load :: "byte list \<Rightarrow> nat \<Rightarrow> nat \<Rightarrow> byte list" where
  "load view off n = take n (drop off view)"

definition encode_u32 :: "nat \<Rightarrow> byte list" where
  "encode_u32 n =
     [of_nat (n mod 256), of_nat (n div 256 mod 256),
      of_nat (n div 65536 mod 256), of_nat (n div 16777216 mod 256)]"

definition decode_u32 :: "byte list \<Rightarrow> nat" where
  "decode_u32 bs = foldr (\<lambda>b acc. unat b + 256 * acc) bs 0"

section \<open>The operations\<close>

text \<open>
  Each operation maps the buffer to the way the call ends and the buffer it leaves. An
  exception leaves the buffer as it is at the \<open>throw\<close>.
\<close>

definition push :: "GlobalBuffer \<Rightarrow> BufferItem \<Rightarrow> unit outcome \<times> GlobalBuffer" where
  "push this item0 =
    (if \<not> (shutdown_m this \<or> length (queue_m this) < capacity_m this) then (Waiting, this)
     else if shutdown_m this then (Returned (), this)
     else
       let item1 = item0\<lparr>fieldNames := fieldNames_m this\<rparr>;
           psize = length (payload item1)
       in if memoryMapped (options_m this)
          then (case mappedView_m this of
                  None \<Rightarrow> (Thrown (runtime_error ''Memory-mapped buffer is not initialized''), this)
                | Some view \<Rightarrow>
                    if psize > maxPayloadSize (options_m this)
                    then (Thrown (runtime_error
                            ''Payload size exceeds configured maximum for memory-mapped buffer''),
                          this)
                    else
                      let slot = writeIndex_m this;
                          offset = (slot * slotSize_m this) mod 2 ^ 64;
                          storedSize = psize mod 2 ^ 32
                      in if offset + 4 + psize > length view then (Fault, this)
                         else
                           let view1 = store view offset (encode_u32 storedSize);
                               view2 = (if psize > 0 then store view1 (offset + 4) (payload item1)
                                        else view1)
                           in (Returned (),
                               this\<lparr>mappedView_m := Some view2,
                                     writeIndex_m := (writeIndex_m this + 1) mod capacity_m this,
                                     queue_m := queue_m this @
                                       [\<lparr>item = item1\<lparr>payload := []\<rparr>, payloadSize = psize,
                                         slotIndex = slot\<rparr>]\<rparr>))
          else (Returned (),
                this\<lparr>queue_m := queue_m this @
                  [\<lparr>item = item1, payloadSize = psize, slotIndex = kInvalidSlot\<rparr>]\<rparr>))"

definition materializeEntry :: "GlobalBuffer \<Rightarrow> QueueEntry \<Rightarrow> BufferItem outcome" where
  "materializeEntry this entry =
    (if memoryMapped (options_m this) \<and> slotIndex entry \<noteq> kInvalidSlot
     then (case mappedView_m this of
             None \<Rightarrow> Fault
           | Some view \<Rightarrow>
               let offset = (slotIndex entry * slotSize_m this) mod 2 ^ 64
               in if offset + 4 > length view then Fault
                  else
                    let storedSize = decode_u32 (load view offset 4)
                    in if storedSize \<noteq> payloadSize entry
                       then Thrown (runtime_error ''Memory-mapped payload size mismatch detected'')
                       else if payloadSize entry > 0
                                \<and> offset + 4 + payloadSize entry > length view
                       then Fault
                       else Returned ((item entry)
                              \<lparr>payload := (if payloadSize entry > 0
                                            then load view (offset + 4) (payloadSize entry)
                                            else replicate (payloadSize entry) 0)\<rparr>))
     else Returned (item entry))"

text \<open>
  \<open>pop\<close> and \<open>tryPop\<close> take the front entry off the queue before they call
  \<open>materializeEntry\<close>, so the entry is gone also when that call throws. What
  \<open>materializeEntry\<close> returns is wrapped into the \<open>std::optional\<close>.
\<close>

fun wrap_optional :: "BufferItem outcome \<Rightarrow> BufferItem option outcome" where
  "wrap_optional (Returned it) = Returned (Some it)"
| "wrap_optional (Thrown e) = Thrown e"
| "wrap_optional Waiting = Waiting"
| "wrap_optional Fault = Fault"

definition pop :: "GlobalBuffer \<Rightarrow> BufferItem option outcome \<times> GlobalBuffer" where
  "pop this =
    (if \<not> (shutdown_m this \<or> queue_m this \<noteq> []) then (Waiting, this)
     else case queue_m this of
            [] \<Rightarrow> (Returned None, this)
          | entry # rest \<Rightarrow>
              (wrap_optional (materializeEntry this entry), this\<lparr>queue_m := rest\<rparr>))"

definition tryPop :: "GlobalBuffer \<Rightarrow> BufferItem option outcome \<times> GlobalBuffer" where
  "tryPop this =
    (case queue_m this of
       [] \<Rightarrow> (Returned None, this)
     | entry # rest \<Rightarrow>
         (wrap_optional (materializeEntry this entry), this\<lparr>queue_m := rest\<rparr>))"

definition shutdown :: "GlobalBuffer \<Rightarrow> GlobalBuffer" where
  "shutdown this = this\<lparr>shutdown_m := True\<rparr>"

section \<open>Runs of the buffer\<close>

text \<open>
  The calls threads can make on a shared buffer, in the order in which they take the
  mutex, and the buffer a sequence of such calls leaves.
\<close>

datatype operation = Push BufferItem | Pop | TryPop | Shutdown

fun apply_op :: "GlobalBuffer \<Rightarrow> operation \<Rightarrow> GlobalBuffer" where
  "apply_op this (Push it) = snd (push this it)"
| "apply_op this Pop = snd (pop this)"
| "apply_op this TryPop = snd (tryPop this)"
| "apply_op this Shutdown = shutdown this"

definition run_ops :: "GlobalBuffer \<Rightarrow> operation list \<Rightarrow> GlobalBuffer" where
  "run_ops this ops = foldl apply_op this ops"

text \<open>\<open>n\<close> calls of \<open>pop\<close> one after the other: what each returned, and the buffer left.\<close>

fun pops :: "nat \<Rightarrow> GlobalBuffer \<Rightarrow> BufferItem option outcome list \<times> GlobalBuffer" where
  "pops 0 this = ([], this)"
| "pops (Suc n) this =
     (case pop this of (r, this1) \<Rightarrow>
        (case pops n this1 of (rs, this2) \<Rightarrow> (r # rs, this2)))"

section \<open>\<open>CsvWriter::formatRecord\<close>\<close>

record CsvSettings =
  outputPath :: string
  delimiter :: char
  quoteStrings :: bool
  includeTimestamp :: bool
  flushInterval :: nat
  timestampFormat :: string

definition escape :: "string \<Rightarrow> string" where
  "escape v =
     foldl (\<lambda>escaped ch. let escaped = escaped @ [ch]
                          in if ch = CHR 0x22 then escaped @ [CHR 0x22] else escaped) [] v"

text \<open>
  The lambda \<open>appendColumn\<close> works on the output stream and the flag \<open>firstColumn\<close>,
  both captured by reference; here it takes and returns the pair.
\<close>

definition appendColumn :: "CsvSettings \<Rightarrow> string \<times> bool \<Rightarrow> string \<Rightarrow> string \<times> bool" where
  "appendColumn settings st v =
     (case st of (oss, firstColumn) \<Rightarrow>
        let (oss, firstColumn) =
              (if \<not> firstColumn then (oss @ [delimiter settings], firstColumn)
               else (oss, False));
            oss = (if quoteStrings settings then oss @ [CHR 0x22] @ escape v @ [CHR 0x22]
                   else oss @ v)
        in (oss, firstColumn))"

text \<open>
  Stream output of an \<open>unsigned int\<close> under \<open>std::hex\<close>: the digits to base 16 in
  lower case, without leading zeros; under \<open>std::setw(2)\<close> and \<open>std::setfill('0')\<close>
  the digits are padded on the left to two characters.
\<close>

definition hex_digit :: "nat \<Rightarrow> char" where
  "hex_digit d = ''0123456789abcdef'' ! d"

function to_hex :: "nat \<Rightarrow> string" where
  "to_hex n = (if n < 16 then [hex_digit n] else to_hex (n div 16) @ [hex_digit (n mod 16)])"
  by pat_completeness auto
termination
  by (relation "measure (\<lambda>n. n)") auto

declare to_hex.simps [simp del]

definition setw_fill :: "nat \<Rightarrow> char \<Rightarrow> string \<Rightarrow> string" where
  "setw_fill w c digits = replicate (w - length digits) c @ digits"

definition hex_payload :: "byte list \<Rightarrow> string" where
  "hex_payload p =
     foldl (\<lambda>out i. let out = out @ setw_fill 2 (CHR ''0'') (to_hex (unat (p ! i)))
                     in if i + 1 < length p then out @ '' '' else out)
           [] [0..<length p]"

text \<open>
  \<open>localtime_r\<close> and \<open>std::put_time\<close> belong to the C++ library: \<open>formatRecord\<close>
  takes as \<open>put_time\<close> the function from the format string and the time point to the
  text they produce.
\<close>

definition formatRecord ::
  "(string \<Rightarrow> int \<Rightarrow> string) \<Rightarrow> CsvSettings \<Rightarrow> BufferItem \<Rightarrow> string" where
  "formatRecord put_time settings it =
     (let st = ([], True);
          st = (if includeTimestamp settings
                then appendColumn settings st (put_time (timestampFormat settings) (timestamp it))
                else st);
          st = appendColumn settings st (source it);
          st = appendColumn settings st (hex_payload (payload it))
      in fst st)"

section \<open>\<open>StreamingSession\<close>\<close>

text \<open>
  The \<open>std::thread\<close> member: not joinable (default-constructed or joined), joinable
  with \<open>threadMain\<close> still executing, or joinable with \<open>threadMain\<close> returned.
  \<open>cleanup_calls\<close> counts the calls of the virtual hook \<open>cleanup\<close>.
\<close>

datatype worker = NoThread | Executing | Finished

record StreamingSession =
  running_m :: bool
  worker_m :: worker
  cleanup_calls :: nat

definition new_session :: StreamingSession where
  "new_session = \<lparr>running_m = False, worker_m = NoThread, cleanup_calls = 0\<rparr>"

text \<open>
  \<open>run\<close> is supplied by the derived class: it returns or it throws. \<open>threadMain\<close> is
  the entry function of the worker thread; it returns, or the exception it rethrows
  leaves it.
\<close>

datatype run_exit = RunReturns | RunThrows

datatype thread_exit = ThreadReturns | UncaughtException

fun threadMain :: "run_exit \<Rightarrow> StreamingSession \<Rightarrow> thread_exit \<times> StreamingSession" where
  "threadMain RunThrows this = (UncaughtException, this\<lparr>running_m := False\<rparr>)"
| "threadMain RunReturns this = (ThreadReturns, this\<lparr>running_m := False\<rparr>)"

text \<open>
  The process is alive, or \<open>std::terminate\<close> has been called and all of its threads are
  gone. The C++ library calls \<open>std::terminate\<close> when an exception leaves the entry
  function of a \<open>std::thread\<close>, and when a \<open>std::thread\<close> that is joinable is assigned
  to.
\<close>

datatype 'a proc = Alive 'a | Terminated

text \<open>The worker thread comes to the end of \<open>threadMain\<close>, \<open>run\<close> having ended as given.\<close>

definition worker_ends :: "run_exit \<Rightarrow> StreamingSession \<Rightarrow> StreamingSession proc" where
  "worker_ends r this =
     (if worker_m this = Executing
      then (case threadMain r this of
              (ThreadReturns, this1) \<Rightarrow> Alive (this1\<lparr>worker_m := Finished\<rparr>)
            | (UncaughtException, this1) \<Rightarrow> Terminated)
      else Alive this)"

definition start :: "StreamingSession \<Rightarrow> StreamingSession proc" where
  "start this =
     (if running_m this then Alive this
      else let this1 = this\<lparr>running_m := True\<rparr>
           in if worker_m this1 = NoThread then Alive (this1\<lparr>worker_m := Executing\<rparr>)
              else Terminated)"

text \<open>
  \<open>stop\<close>; \<open>join\<close> returns once the worker has come to the end of \<open>threadMain\<close>,
  and \<open>r\<close> says how \<open>run\<close> ends in a worker that is still executing.
\<close>

definition stop :: "run_exit \<Rightarrow> StreamingSession \<Rightarrow> StreamingSession proc" where
  "stop r this =
     (let this1 = this\<lparr>running_m := False\<rparr>;
          joined = (if worker_m this1 \<noteq> NoThread
                    then (case worker_ends r this1 of
                            Alive this2 \<Rightarrow> Alive (this2\<lparr>worker_m := NoThread\<rparr>)
                          | Terminated \<Rightarrow> Terminated)
                    else Alive this1)
      in case joined of
           Alive this3 \<Rightarrow> Alive (this3\<lparr>cleanup_calls := cleanup_calls this3 + 1\<rparr>)
         | Terminated \<Rightarrow> Terminated)"

text \<open>Sequencing of calls in a process that may have been terminated.\<close>

definition and_then :: "'a proc \<Rightarrow> ('a \<Rightarrow> 'b proc) \<Rightarrow> 'b proc" where
  "and_then p f = (case p of Alive x \<Rightarrow> f x | Terminated \<Rightarrow> Terminated)"

text \<open>
  The process of \<open>main\<close>: the sessions it started, the shared buffer and the writer
  thread. \<open>producer_ends i r\<close>: the worker of session \<open>i\<close> comes to its end.
\<close>

record Process =
  sessions :: "StreamingSession list"
  buffer :: GlobalBuffer
  writer_running :: bool

definition producer_ends :: "nat \<Rightarrow> run_exit \<Rightarrow> Process \<Rightarrow> Process proc" where
  "producer_ends i r p =
     (if i < length (sessions p)
      then (case worker_ends r (sessions p ! i) of
              Alive this1 \<Rightarrow> Alive (p\<lparr>sessions := (sessions p)[i := this1]\<rparr>)
            | Terminated \<Rightarrow> Terminated)
      else Alive p)"

section \<open>Example buffers\<close>

text \<open>
  Small configurations on which the properties below are evaluated: a memory-mapped ring
  of two slots for payloads of at most two bytes, a heap buffer of capacity two, and a
  memory-mapped ring of one slot whose maximum payload size is \<open>2 ^ 32\<close>.
\<close>

definition example_item :: "byte list \<Rightarrow> BufferItem" where
  "example_item bs =
     \<lparr>source = ''dev0'', timestamp = 0, payload = bs,
      fieldNames = \<lparr>source_name = ''s'', timestamp_name = ''t'', payload_name = ''p''\<rparr>\<rparr>"

definition small_ring_options :: Options where
  "small_ring_options =
     \<lparr>capacity = 2, memoryMapped = True, backingFile = ''ring.bin'', maxPayloadSize = 2,
      optFieldNames = default_FieldNames\<rparr>"

definition small_ring :: GlobalBuffer where
  "small_ring =
     \<lparr>options_m = small_ring_options, capacity_m = 2, fieldNames_m = default_FieldNames,
      queue_m = [], shutdown_m = False, slotSize_m = 6, writeIndex_m = 0,
      mappedView_m = Some [0, 0, 0, 0, 0, 0, 0, 0, 0, 0, 0, 0], mappedSize_m = 12\<rparr>"

definition small_heap_options :: Options where
  "small_heap_options =
     \<lparr>capacity = 2, memoryMapped = False, backingFile = [], maxPayloadSize = 0,
      optFieldNames = default_FieldNames\<rparr>"

definition small_heap :: GlobalBuffer where
  "small_heap =
     \<lparr>options_m = small_heap_options\<lparr>maxPayloadSize := 4096\<rparr>, capacity_m = 2,
      fieldNames_m = default_FieldNames, queue_m = [], shutdown_m = False, slotSize_m = 0,
      writeIndex_m = 0, mappedView_m = None, mappedSize_m = 0\<rparr>"

definition large_ring_options :: Options where
  "large_ring_options =
     \<lparr>capacity = 1, memoryMapped = True, backingFile = ''ring.bin'',
      maxPayloadSize = 4294967296, optFieldNames = default_FieldNames\<rparr>"

text \<open>The two-slot ring after a push of the bytes 41 42 (hexadecimal).\<close>

definition ring1 :: GlobalBuffer where
  "ring1 = small_ring
     \<lparr>mappedView_m := Some [2, 0, 0, 0, 0x41, 0x42, 0, 0, 0, 0, 0, 0], writeIndex_m := 1,
      queue_m := [\<lparr>item = (example_item [])\<lparr>fieldNames := default_FieldNames\<rparr>,
                   payloadSize = 2, slotIndex = 0\<rparr>]\<rparr>"

text \<open>The two-slot ring after two pushes, of the bytes 41 42 (hexadecimal) and of 07.\<close>

definition ring2 :: GlobalBuffer where
  "ring2 = run_ops small_ring [Push (example_item [0x41, 0x42]), Push (example_item [7])]"

text \<open>
  The one-slot ring for payloads of up to \<open>2 ^ 32\<close> bytes, as constructed over an empty
  file, and an item with a payload of exactly \<open>2 ^ 32\<close> bytes.
\<close>

definition large_ring :: GlobalBuffer where
  "large_ring =
     \<lparr>options_m = large_ring_options, capacity_m = 1, fieldNames_m = default_FieldNames,
      queue_m = [], shutdown_m = False, slotSize_m = 4294967300, writeIndex_m = 0,
      mappedView_m = Some (replicate 4294967300 0), mappedSize_m = 4294967300\<rparr>"

definition large_item :: BufferItem where
  "large_item = example_item (replicate 4294967296 0x41)"

text \<open>
  The record format in the words of the specification: the payload as lower-case
  hexadecimal byte pairs separated by single spaces, a quoted column as the value between
  double quotes with every double quote in it doubled, and the line as the columns
  (the formatted timestamp if enabled, the source, the payload) joined by the delimiter.
\<close>

definition hex_byte :: "byte \<Rightarrow> string" where
  "hex_byte b = [hex_digit (unat b div 16), hex_digit (unat b mod 16)]"

fun hex_pairs :: "byte list \<Rightarrow> string" where
  "hex_pairs [] = []"
| "hex_pairs [b] = hex_byte b"
| "hex_pairs (b # bs) = hex_byte b @ '' '' @ hex_pairs bs"

definition quoted :: "string \<Rightarrow> string" where
  "quoted v =
     [CHR 0x22] @ concat (map (\<lambda>ch. if ch = CHR 0x22 then [ch, ch] else [ch]) v) @ [CHR 0x22]"

definition quoted_line :: "char \<Rightarrow> string list \<Rightarrow> string" where
  "quoted_line d columns =
     (case columns of [] \<Rightarrow> []
      | c # cs \<Rightarrow> quoted c @ concat (map (\<lambda>v. d # quoted v) cs))"

text \<open>The settings and the record of the specification's literal case.\<close>

definition example_settings :: CsvSettings where
  "example_settings =
     \<lparr>outputPath = ''output.csv'', delimiter = CHR '','', quoteStrings = True,
      includeTimestamp = True, flushInterval = 1000, timestampFormat = ''%Y-%m-%d''\<rparr>"

definition example_put_time :: "string \<Rightarrow> int \<Rightarrow> string" where
  "example_put_time fmt t = ''2024-01-01''"

text \<open>
  A session whose worker is executing, and the process of \<open>main\<close> with two such
  sessions, the heap buffer and the writer thread.
\<close>

definition running_session :: StreamingSession where
  "running_session = \<lparr>running_m = True, worker_m = Executing, cleanup_calls = 0\<rparr>"

definition example_process :: Process where
  "example_process =
     \<lparr>sessions = [running_session, running_session], buffer = small_heap,
      writer_running = True\<rparr>"

section \<open>The ring of slots\<close>

text \<open>
  What the queued entries yield when they are popped, front first, and the layout the
  constructor and the operations keep in memory-mapped mode, for a maximum payload size
  that fits the 32-bit length header and a region whose size fits \<open>std::size_t\<close>: the
  region has \<open>capacity\<close> slots of \<open>4 + maxPayloadSize\<close> bytes, the queued entries
  occupy consecutive slots (modulo the capacity) that end just before the write index,
  and the header of each entry's slot holds the entry's recorded size.
\<close>

definition contents :: "GlobalBuffer \<Rightarrow> BufferItem outcome list" where
  "contents s = map (materializeEntry s) (queue_m s)"

definition ring_inv :: "GlobalBuffer \<Rightarrow> bool" where
  "ring_inv s \<longleftrightarrow>
     memoryMapped (options_m s) \<and> 0 < capacity_m s \<and>
     slotSize_m s = 4 + maxPayloadSize (options_m s) \<and>
     slotSize_m s * capacity_m s < 2 ^ 64 \<and>
     maxPayloadSize (options_m s) < 2 ^ 32 \<and>
     length (queue_m s) \<le> capacity_m s \<and>
     (\<exists>v first. mappedView_m s = Some v \<and> length v = slotSize_m s * capacity_m s \<and>
        writeIndex_m s = (first + length (queue_m s)) mod capacity_m s \<and>
        map slotIndex (queue_m s) =
          map (\<lambda>i. (first + i) mod capacity_m s) [0..<length (queue_m s)] \<and>
        (\<forall>e \<in> set (queue_m s).
           payloadSize e \<le> maxPayloadSize (options_m s) \<and>
           decode_u32 (load v (slotIndex e * slotSize_m s) 4) = payloadSize e))"


section \<open>Construction: properties\<close>

lemma normalizeOptions_capacity:
  "capacity (normalizeOptions opts) = (if capacity opts = 0 then 1024 else capacity opts)"
  by (simp add: normalizeOptions_def default_Options_def Let_def)

lemma normalizeOptions_maxPayloadSize:
  "maxPayloadSize (normalizeOptions opts) =
     (if maxPayloadSize opts = 0 then 4096 else maxPayloadSize opts)"
  by (simp add: normalizeOptions_def default_Options_def Let_def)

lemma normalizeOptions_backingFile:
  "backingFile (normalizeOptions opts) =
     (if memoryMapped opts \<and> backingFile opts = [] then ''global_buffer.mmap''
      else backingFile opts)"
  by (simp add: normalizeOptions_def default_Options_def Let_def)

lemma normalizeOptions_memoryMapped:
  "memoryMapped (normalizeOptions opts) = memoryMapped opts"
  by (simp add: normalizeOptions_def default_Options_def Let_def)

lemma construct_heap:
  "\<not> memoryMapped opts \<Longrightarrow>
   construct opts env =
     Inr \<lparr>options_m = normalizeOptions opts, capacity_m = capacity (normalizeOptions opts),
          fieldNames_m = optFieldNames (normalizeOptions opts), queue_m = [],
          shutdown_m = False, slotSize_m = 0, writeIndex_m = 0, mappedView_m = None,
          mappedSize_m = 0\<rparr>"
  by (simp add: construct_def Let_def normalizeOptions_capacity normalizeOptions_memoryMapped)

lemma construct_mapped:
  "memoryMapped opts \<Longrightarrow>
   construct opts env =
     (let slot = (4 + maxPayloadSize (normalizeOptions opts)) mod 2 ^ 64;
          mapped = (slot * capacity (normalizeOptions opts)) mod 2 ^ 64
      in case initializeMapping env mapped of
           Inl e \<Rightarrow> Inl e
         | Inr view \<Rightarrow>
             Inr \<lparr>options_m = normalizeOptions opts, capacity_m = capacity (normalizeOptions opts),
                  fieldNames_m = optFieldNames (normalizeOptions opts), queue_m = [],
                  shutdown_m = False, slotSize_m = slot, writeIndex_m = 0,
                  mappedView_m = Some view, mappedSize_m = mapped\<rparr>)"
  by (simp add: construct_def Let_def normalizeOptions_capacity normalizeOptions_memoryMapped
      normalizeOptions_maxPayloadSize normalizeOptions_backingFile split: sum.splits)

lemma initializeMapping_error:
  "initializeMapping env n = Inl e \<Longrightarrow> \<exists>msg. e = runtime_error msg"
  by (auto simp: initializeMapping_def split: mapping_env.splits)

lemma length_initializeMapping:
  "initializeMapping env n = Inr view \<Longrightarrow> length view = n"
  by (auto simp: initializeMapping_def split: mapping_env.splits)

text \<open>
  Claim C4, as stated, fails: construction with capacity 0, memory-mapped mode, an empty
  backing-file path and maximum payload size 0 succeeds, with capacity 1024.
\<close>

theorem construct_zero_capacity_counterexample:
  "\<not> isl (construct \<lparr>capacity = 0, memoryMapped = True, backingFile = '''',
                      maxPayloadSize = 0, optFieldNames = default_FieldNames\<rparr> (FileContent []))
   \<and> capacity_m (projr (construct \<lparr>capacity = 0, memoryMapped = True, backingFile = '''',
                      maxPayloadSize = 0, optFieldNames = default_FieldNames\<rparr> (FileContent [])))
       = 1024"
  by (simp add: construct_mapped Let_def initializeMapping_def normalizeOptions_capacity)

text \<open>
  Claim C4, as the code has it. Construction never ends in an \<open>invalid_argument\<close>:
  \<open>normalizeOptions\<close> runs first and puts 1024 for a capacity of 0, 4096 for a maximum
  payload size of 0 and \<open>global_buffer.mmap\<close> for an empty backing-file path in
  memory-mapped mode, so the three checks of the constructor never fire. Construction
  fails only in memory-mapped mode, with the \<open>runtime_error\<close> of \<open>initializeMapping\<close>.
\<close>

theorem construct_never_invalid_argument:
  "(\<forall>msg. construct opts env \<noteq> Inl (invalid_argument msg)) \<and>
   (\<not> memoryMapped opts \<longrightarrow> (\<exists>s. construct opts env = Inr s)) \<and>
   (\<forall>e. construct opts env = Inl e \<longrightarrow>
        memoryMapped opts \<and>
        initializeMapping env
          (((4 + maxPayloadSize (normalizeOptions opts)) mod 2 ^ 64
             * capacity (normalizeOptions opts)) mod 2 ^ 64) = Inl e) \<and>
   (\<forall>s. construct opts env = Inr s \<longrightarrow>
        capacity_m s = (if capacity opts = 0 then 1024 else capacity opts) \<and>
        maxPayloadSize (options_m s) =
          (if maxPayloadSize opts = 0 then 4096 else maxPayloadSize opts) \<and>
        backingFile (options_m s) =
          (if memoryMapped opts \<and> backingFile opts = [] then ''global_buffer.mmap''
           else backingFile opts))"
proof (cases "memoryMapped opts")
  case False
  then show ?thesis
    by (simp add: construct_heap normalizeOptions_capacity normalizeOptions_maxPayloadSize
        normalizeOptions_backingFile)
next
  case True
  show ?thesis
    using True
    by (auto simp: construct_mapped Let_def normalizeOptions_capacity
        normalizeOptions_maxPayloadSize normalizeOptions_backingFile
        split: sum.splits dest: initializeMapping_error)
qed

theorem construct_never_invalid_argument_witness:
  "\<not> memoryMapped (default_Options\<lparr>capacity := 0\<rparr>) \<and>
   (\<exists>s. construct (default_Options\<lparr>capacity := 0\<rparr>) OpenFails = Inr s \<and> capacity_m s = 1024)"
  using construct_never_invalid_argument [of "default_Options\<lparr>capacity := 0\<rparr>" OpenFails]
  by (auto simp: default_Options_def)

section \<open>The example buffers are constructed buffers\<close>

lemma replicate_12: "replicate 12 (0::byte) = [0, 0, 0, 0, 0, 0, 0, 0, 0, 0, 0, 0]"
  by (simp add: eval_nat_numeral)

lemma construct_small_ring: "construct small_ring_options (FileContent []) = Inr small_ring"
  by (simp add: construct_mapped small_ring_options_def small_ring_def Let_def
      initializeMapping_def normalizeOptions_def default_Options_def default_FieldNames_def
      replicate_12)

lemma construct_small_heap: "construct small_heap_options env = Inr small_heap"
  by (simp add: construct_heap small_heap_options_def small_heap_def 
      normalizeOptions_def default_Options_def default_FieldNames_def)

section \<open>Steps of the operations\<close>

lemma push_waiting:
  "\<not> shutdown_m s \<Longrightarrow> capacity_m s \<le> length (queue_m s) \<Longrightarrow> push s it = (Waiting, s)"
  by (simp add: push_def)

lemma push_after_shutdown: "shutdown_m s \<Longrightarrow> push s it = (Returned (), s)"
  by (simp add: push_def)

lemma push_heap:
  "\<not> shutdown_m s \<Longrightarrow> length (queue_m s) < capacity_m s \<Longrightarrow> \<not> memoryMapped (options_m s) \<Longrightarrow>
   push s it =
     (Returned (),
      s\<lparr>queue_m := queue_m s @
           [\<lparr>item = it\<lparr>fieldNames := fieldNames_m s\<rparr>, payloadSize = length (payload it),
             slotIndex = kInvalidSlot\<rparr>]\<rparr>)"
  by (simp add: push_def Let_def)

lemma push_queue_cases:
  "queue_m (snd (push s it)) = queue_m s \<or>
   (\<not> shutdown_m s \<and> length (queue_m s) < capacity_m s \<and> fst (push s it) = Returned () \<and>
    (\<exists>e. queue_m (snd (push s it)) = queue_m s @ [e]))"
  by (simp add: push_def Let_def split: option.splits)

lemma push_capacity [simp]: "capacity_m (snd (push s it)) = capacity_m s"
  by (simp add: push_def Let_def split: option.splits)

lemma push_shutdown_flag [simp]: "shutdown_m (snd (push s it)) = shutdown_m s"
  by (simp add: push_def Let_def split: option.splits)

lemma pop_queue: "queue_m (snd (pop s)) = tl (queue_m s)"
  by (simp add: pop_def split: list.splits)

lemma tryPop_queue: "queue_m (snd (tryPop s)) = tl (queue_m s)"
  by (simp add: tryPop_def split: list.splits)

lemma pop_capacity [simp]: "capacity_m (snd (pop s)) = capacity_m s"
  by (simp add: pop_def split: list.splits)

lemma tryPop_capacity [simp]: "capacity_m (snd (tryPop s)) = capacity_m s"
  by (simp add: tryPop_def split: list.splits)

lemma shutdown_fields [simp]:
  "capacity_m (shutdown s) = capacity_m s" "queue_m (shutdown s) = queue_m s"
  "shutdown_m (shutdown s)"
  by (simp_all add: shutdown_def)

section \<open>Errors of \<open>push\<close>\<close>

text \<open>
  Claim C5. In memory-mapped mode, a \<open>push\<close> that gets past its wait on a buffer that
  is not shut down, with a payload strictly longer than the configured maximum, leaves by
  a \<open>runtime_error\<close> (payload too large; or mapping not initialised, when the view is
  null, which is checked first), and the buffer is as before: the item is not queued.
\<close>

theorem oversized_push_throws:
  assumes "memoryMapped (options_m s)" and "\<not> shutdown_m s"
    and "length (queue_m s) < capacity_m s"
    and "maxPayloadSize (options_m s) < length (payload it)"
  shows "push s it =
           (Thrown (runtime_error
              (if mappedView_m s = None then ''Memory-mapped buffer is not initialized''
               else ''Payload size exceeds configured maximum for memory-mapped buffer'')), s)"
  using assms by (simp add: push_def Let_def split: option.splits)

theorem oversized_push_throws_witness:
  "memoryMapped (options_m small_ring) \<and> \<not> shutdown_m small_ring \<and>
   length (queue_m small_ring) < capacity_m small_ring \<and>
   maxPayloadSize (options_m small_ring) < length (payload (example_item [1, 2, 3])) \<and>
   push small_ring (example_item [1, 2, 3]) =
     (Thrown (runtime_error
        ''Payload size exceeds configured maximum for memory-mapped buffer''), small_ring)"
  using oversized_push_throws [of small_ring "example_item [1, 2, 3]"]
  by (simp add: small_ring_def small_ring_options_def example_item_def)

text \<open>
  Claim C10. Whenever \<open>push\<close> leaves by an exception, the buffer it leaves is the buffer
  it found: queue, write index and mapped region are untouched. This happens only in
  memory-mapped mode, on a buffer that is not shut down and not full, and for the two
  reasons the source gives: the view is null, or the payload is longer than the maximum.
\<close>

theorem push_error_leaves_buffer:
  assumes "fst (push s it) = Thrown e"
  shows "snd (push s it) = s \<and> memoryMapped (options_m s) \<and> \<not> shutdown_m s \<and>
         length (queue_m s) < capacity_m s \<and>
         (if mappedView_m s = None
          then e = runtime_error ''Memory-mapped buffer is not initialized''
          else maxPayloadSize (options_m s) < length (payload it) \<and>
               e = runtime_error
                     ''Payload size exceeds configured maximum for memory-mapped buffer'')"
  using assms by (auto simp: push_def Let_def split: option.splits if_splits)

theorem push_error_leaves_buffer_witness:
  "fst (push (small_ring\<lparr>mappedView_m := None\<rparr>) (example_item [7])) =
     Thrown (runtime_error ''Memory-mapped buffer is not initialized'') \<and>
   snd (push (small_ring\<lparr>mappedView_m := None\<rparr>) (example_item [7])) =
     small_ring\<lparr>mappedView_m := None\<rparr>"
proof -
  have "fst (push (small_ring\<lparr>mappedView_m := None\<rparr>) (example_item [7])) =
          Thrown (runtime_error ''Memory-mapped buffer is not initialized'')"
    by (simp add: push_def small_ring_def small_ring_options_def Let_def)
  from this push_error_leaves_buffer [OF this] show ?thesis by simp
qed

section \<open>The length check of \<open>pop\<close>\<close>

text \<open>
  Claim C6. In memory-mapped mode \<open>pop\<close> takes the front entry off the queue, reads the
  4-byte length at the entry's slot and compares it with the recorded payload size. When
  they differ it throws the \<open>runtime_error\<close> of the size mismatch (no item, no retry:
  the entry is gone from the queue); when they agree it returns the item with the
  payload read from the slot, which has the recorded length.
\<close>

theorem pop_verifies_stored_length:
  assumes "memoryMapped (options_m s)" and "queue_m s = entry # rest"
    and "slotIndex entry \<noteq> kInvalidSlot" and "mappedView_m s = Some view"
    and "offset = (slotIndex entry * slotSize_m s) mod 2 ^ 64"
    and "offset + 4 + payloadSize entry \<le> length view"
  shows "pop s =
           (if decode_u32 (load view offset 4) = payloadSize entry
            then Returned (Some ((item entry)
                   \<lparr>payload := load view (offset + 4) (payloadSize entry)\<rparr>))
            else Thrown (runtime_error ''Memory-mapped payload size mismatch detected''),
            s\<lparr>queue_m := rest\<rparr>)
         \<and> length (load view (offset + 4) (payloadSize entry)) = payloadSize entry"
  using assms by (simp add: pop_def materializeEntry_def Let_def load_def)

lemma push_small_ring:
  "push small_ring (example_item [0x41, 0x42]) = (Returned (), ring1)"
  by (simp add: push_def small_ring_def small_ring_options_def example_item_def Let_def
      store_def encode_u32_def ring1_def)

theorem pop_verifies_stored_length_witness:
  "memoryMapped (options_m ring1) \<and>
   slotIndex (hd (queue_m ring1)) \<noteq> kInvalidSlot \<and>
   pop ring1 =
     (Returned (Some ((example_item [0x41, 0x42])\<lparr>fieldNames := default_FieldNames\<rparr>)),
      ring1\<lparr>queue_m := []\<rparr>)"
  using pop_verifies_stored_length [of ring1 "hd (queue_m ring1)" "[]"
      "[2, 0, 0, 0, 0x41, 0x42, 0, 0, 0, 0, 0, 0]" 0]
  by (simp add: ring1_def small_ring_def small_ring_options_def example_item_def
      kInvalidSlot_def size_max_def decode_u32_def load_def)

section \<open>Bounded capacity\<close>

lemma apply_op_capacity [simp]: "capacity_m (apply_op s op) = capacity_m s"
  by (cases op) simp_all

lemma apply_op_bound:
  "length (queue_m s) \<le> capacity_m s \<Longrightarrow> length (queue_m (apply_op s op)) \<le> capacity_m s"
proof (cases op)
  case (Push it)
  assume "length (queue_m s) \<le> capacity_m s"
  with push_queue_cases [of s it] Push show ?thesis by auto
qed (simp_all add: pop_queue tryPop_queue)

lemma run_ops_capacity [simp]: "capacity_m (run_ops s ops) = capacity_m s"
  unfolding run_ops_def by (induction ops arbitrary: s) simp_all

lemma run_ops_bound:
  "length (queue_m s) \<le> capacity_m s \<Longrightarrow> length (queue_m (run_ops s ops)) \<le> capacity_m s"
  unfolding run_ops_def
proof (induction ops arbitrary: s)
  case Nil
  then show ?case by simp
next
  case (Cons op ops)
  from Cons.prems have "length (queue_m (apply_op s op)) \<le> capacity_m (apply_op s op)"
    by (simp add: apply_op_bound)
  from Cons.IH [OF this] show ?case by simp
qed

lemma construct_empty_queue:
  "construct opts env = Inr s \<Longrightarrow>
   queue_m s = [] \<and> capacity_m s = (if capacity opts = 0 then 1024 else capacity opts)"
  by (cases "memoryMapped opts")
     (auto simp: construct_heap construct_mapped Let_def normalizeOptions_capacity
        split: sum.splits)

text \<open>
  Claim C1. In every state a constructed buffer reaches by calls of \<open>push\<close>, \<open>pop\<close>,
  \<open>tryPop\<close> and \<open>shutdown\<close>, the queue holds at most \<open>capacity_m\<close> entries, and
  \<open>capacity_m\<close> is the capacity the buffer was constructed with (1024 where 0 was
  given, see claim C4). A \<open>push\<close> leaves the queue as it is or finds it strictly below
  capacity and appends one entry; on a full buffer that is not shut down it waits; no
  other operation makes the queue longer.
\<close>

theorem queue_bounded_by_capacity:
  assumes "construct opts env = Inr s0" and "s = run_ops s0 ops"
  shows "length (queue_m s) \<le> capacity_m s \<and>
         capacity_m s = (if capacity opts = 0 then 1024 else capacity opts) \<and>
         (\<forall>it. (queue_m (snd (push s it)) = queue_m s \<or>
                (length (queue_m s) < capacity_m s \<and>
                 length (queue_m (snd (push s it))) = length (queue_m s) + 1)) \<and>
               (\<not> shutdown_m s \<and> capacity_m s \<le> length (queue_m s) \<longrightarrow>
                  push s it = (Waiting, s))) \<and>
         length (queue_m (snd (pop s))) \<le> length (queue_m s) \<and>
         length (queue_m (snd (tryPop s))) \<le> length (queue_m s) \<and>
         length (queue_m (shutdown s)) = length (queue_m s)"
proof -
  from construct_empty_queue [OF assms(1)]
  have q0: "queue_m s0 = []"
    and c0: "capacity_m s0 = (if capacity opts = 0 then 1024 else capacity opts)"
    by simp_all
  from q0 have "length (queue_m s0) \<le> capacity_m s0" by simp
  from run_ops_bound [OF this] have bound: "length (queue_m s) \<le> capacity_m s"
    by (simp add: assms(2))
  have cap: "capacity_m s = (if capacity opts = 0 then 1024 else capacity opts)"
    using c0 by (simp add: assms(2))
  have pushes: "queue_m (snd (push s it)) = queue_m s \<or>
                (length (queue_m s) < capacity_m s \<and>
                 length (queue_m (snd (push s it))) = length (queue_m s) + 1)" for it
    using push_queue_cases [of s it] by auto
  show ?thesis
    using bound cap pushes by (simp add: push_waiting pop_queue tryPop_queue)
qed

theorem queue_bounded_by_capacity_witness:
  "construct small_heap_options OpenFails = Inr small_heap \<and>
   length (queue_m (run_ops small_heap
      [Push (example_item [1]), Push (example_item [2]), Push (example_item [3])])) = 2 \<and>
   capacity_m (run_ops small_heap
      [Push (example_item [1]), Push (example_item [2]), Push (example_item [3])]) = 2"
proof -
  have len: "length (queue_m (run_ops small_heap
      [Push (example_item [1]), Push (example_item [2]), Push (example_item [3])])) = 2"
    by (simp add: run_ops_def push_def small_heap_def small_heap_options_def Let_def)
  from queue_bounded_by_capacity [where opts = small_heap_options and env = OpenFails
      and ?s0.0 = small_heap
      and ops = "[Push (example_item [1]), Push (example_item [2]), Push (example_item [3])]",
      OF construct_small_heap refl]
  have cap: "capacity_m (run_ops small_heap
      [Push (example_item [1]), Push (example_item [2]), Push (example_item [3])]) = 2"
    by (simp add: small_heap_options_def)
  show ?thesis
    using len cap construct_small_heap [of OpenFails] by simp
qed

section \<open>Draining after shutdown\<close>

lemma materializeEntry_queue [simp]:
  "materializeEntry (s\<lparr>queue_m := q\<rparr>) e = materializeEntry s e"
  by (simp add: materializeEntry_def Let_def split: option.splits)

lemma materializeEntry_shutdown [simp]:
  "materializeEntry (shutdown s) e = materializeEntry s e"
  by (simp add: materializeEntry_def shutdown_def Let_def split: option.splits)

lemma materializeEntry_heap:
  "\<not> memoryMapped (options_m s) \<Longrightarrow> materializeEntry s e = Returned (item e)"
  by (simp add: materializeEntry_def)

lemma pop_front:
  "queue_m s = e # es \<Longrightarrow> pop s = (wrap_optional (materializeEntry s e), s\<lparr>queue_m := es\<rparr>)"
  by (simp add: pop_def)

lemma pop_drained: "shutdown_m s \<Longrightarrow> queue_m s = [] \<Longrightarrow> pop s = (Returned None, s)"
  by (simp add: pop_def)

lemma tryPop_empty: "queue_m s = [] \<Longrightarrow> tryPop s = (Returned None, s)"
  by (simp add: tryPop_def)

lemma pops_queue:
  "queue_m s = q \<Longrightarrow>
   pops (length q) s = (map (\<lambda>e. wrap_optional (materializeEntry s e)) q, s\<lparr>queue_m := []\<rparr>)"
proof (induction q arbitrary: s)
  case Nil
  then show ?case by simp
next
  case (Cons e es)
  have "queue_m (s\<lparr>queue_m := es\<rparr>) = es" by simp
  from Cons.IH [OF this] show ?case
    by (simp add: pop_front [OF Cons.prems])
qed

lemma apply_op_drained:
  "shutdown_m s \<Longrightarrow> queue_m s = [] \<Longrightarrow> apply_op s op = s"
  by (cases op) (simp_all add: push_after_shutdown pop_drained tryPop_empty shutdown_def)

lemma run_ops_drained:
  "shutdown_m s \<Longrightarrow> queue_m s = [] \<Longrightarrow> run_ops s ops = s"
  unfolding run_ops_def by (induction ops) (simp_all add: apply_op_drained)

lemma drain_readable_queue:
  assumes "\<forall>e \<in> set (queue_m s). \<exists>it. materializeEntry s e = Returned it"
    and "K = length (queue_m s)" and "d = snd (pops K (shutdown s))"
  shows "length (fst (pops K (shutdown s))) = K \<and>
         (\<forall>r \<in> set (fst (pops K (shutdown s))). \<exists>it. r = Returned (Some it)) \<and>
         fst (pops K (shutdown s)) = map (\<lambda>e. wrap_optional (materializeEntry s e)) (queue_m s) \<and>
         pop d = (Returned None, d) \<and> tryPop d = (Returned None, d) \<and>
         (\<forall>ops. run_ops d ops = d) \<and>
         (\<forall>t it. shutdown_m t \<longrightarrow> push t it = (Returned (), t))"
proof -
  have q: "queue_m (shutdown s) = queue_m s" by simp
  have run: "pops K (shutdown s) =
               (map (\<lambda>e. wrap_optional (materializeEntry s e)) (queue_m s),
                (shutdown s)\<lparr>queue_m := []\<rparr>)"
    unfolding assms(2) using pops_queue [OF q] by simp
  then have d: "d = (shutdown s)\<lparr>queue_m := []\<rparr>" by (simp add: assms(3))
  then have closed: "shutdown_m d" and empty: "queue_m d = []" by simp_all
  have items: "\<forall>r \<in> set (fst (pops K (shutdown s))). \<exists>it. r = Returned (Some it)"
    using assms(1) by (auto simp: run)
  have len: "length (fst (pops K (shutdown s))) = K"
    unfolding run by (simp add: assms(2))
  have after: "pop d = (Returned None, d)" "tryPop d = (Returned None, d)"
    "\<forall>ops. run_ops d ops = d"
    using closed empty by (simp_all add: pop_drained tryPop_empty run_ops_drained)
  have pushes: "\<forall>t it. shutdown_m t \<longrightarrow> push t it = (Returned (), t)"
    by (simp add: push_after_shutdown)
  from len items run after pushes show ?thesis by simp
qed

section \<open>Writing and reading a slot\<close>

lemma length_encode_u32 [simp]: "length (encode_u32 n) = 4"
  by (simp add: encode_u32_def)

lemma decode_encode_u32: "decode_u32 (encode_u32 n) = n mod 2 ^ 32"
proof -
  have b: "unat (of_nat (k mod 256) :: byte) = k mod 256" for k
    by (simp add: unat_of_nat)
  have s1: "n mod (256 * 16777216) = 256 * (n div 256 mod 16777216) + n mod 256"
    by (rule mod_mult2_eq)
  have s2: "n div 256 mod (256 * 65536) = 256 * (n div 256 div 256 mod 65536) + n div 256 mod 256"
    by (rule mod_mult2_eq)
  have s3: "n div 256 div 256 mod (256 * 256) =
              256 * (n div 256 div 256 div 256 mod 256) + n div 256 div 256 mod 256"
    by (rule mod_mult2_eq)
  have d2: "n div 256 div 256 = n div 65536"
    by (simp add: div_mult2_eq [symmetric])
  have d3: "n div 65536 div 256 = n div 16777216"
    by (simp add: div_mult2_eq [symmetric])
  from s1 s2 s3 have "n mod 4294967296 =
      n mod 256 + 256 * (n div 256 mod 256 + 256 * (n div 65536 mod 256
        + 256 * (n div 16777216 mod 256)))"
    by (simp add: d2 d3)
  then show ?thesis
    by (simp add: decode_u32_def encode_u32_def b)
qed

lemma length_store:
  "off + length bs \<le> length v \<Longrightarrow> length (store v off bs) = length v"
  by (simp add: store_def)

lemma load_store_same:
  "off + length bs \<le> length v \<Longrightarrow> load (store v off bs) off (length bs) = bs"
  by (simp add: store_def load_def)

lemma load_store_before:
  "off + length bs \<le> length v \<Longrightarrow> p + n \<le> off \<Longrightarrow> load (store v off bs) p n = load v p n"
  by (simp add: store_def load_def drop_take)

lemma load_store_after:
  "off + length bs \<le> length v \<Longrightarrow> off + length bs \<le> p \<Longrightarrow>
   load (store v off bs) p n = load v p n"
  by (simp add: store_def load_def)

lemma store_nothing: "off \<le> length v \<Longrightarrow> store v off [] = v"
  by (simp add: store_def)

lemma store_encode_nothing:
  "off + 4 \<le> length v \<Longrightarrow> store (store v off (encode_u32 k)) (off + 4) [] = store v off (encode_u32 k)"
  by (simp add: store_nothing length_store)

lemma header_after_stores:
  assumes "off + 4 + length p \<le> length v"
  shows "load (store (store v off (encode_u32 k)) (off + 4) p) off 4 = encode_u32 k"
proof -
  have len: "length (store v off (encode_u32 k)) = length v"
    using assms by (simp add: length_store)
  have "load (store (store v off (encode_u32 k)) (off + 4) p) off 4 =
          load (store v off (encode_u32 k)) off 4"
    using assms len by (simp add: load_store_before)
  also have "\<dots> = encode_u32 k"
    using assms load_store_same [of off "encode_u32 k" v] by simp
  finally show ?thesis .
qed

lemma payload_after_stores:
  assumes "off + 4 + length p \<le> length v"
  shows "load (store (store v off (encode_u32 k)) (off + 4) p) (off + 4) (length p) = p"
proof -
  have len: "length (store v off (encode_u32 k)) = length v"
    using assms by (simp add: length_store)
  show ?thesis
    using assms len by (simp add: load_store_same)
qed

lemma length_after_stores:
  assumes "off + 4 + length p \<le> length v"
  shows "length (store (store v off (encode_u32 k)) (off + 4) p) = length v"
  using assms by (simp add: length_store)

lemma push_mapped:
  assumes "memoryMapped (options_m s)" and "\<not> shutdown_m s"
    and "length (queue_m s) < capacity_m s" and "mappedView_m s = Some v"
    and "length (payload it) \<le> maxPayloadSize (options_m s)"
    and "off = (writeIndex_m s * slotSize_m s) mod 2 ^ 64"
    and "off + 4 + length (payload it) \<le> length v"
  shows "push s it =
     (Returned (),
      s\<lparr>mappedView_m :=
           Some (store (store v off (encode_u32 (length (payload it) mod 2 ^ 32)))
                   (off + 4) (payload it)),
        writeIndex_m := (writeIndex_m s + 1) mod capacity_m s,
        queue_m := queue_m s @
          [\<lparr>item = it\<lparr>fieldNames := fieldNames_m s, payload := []\<rparr>,
            payloadSize = length (payload it), slotIndex = writeIndex_m s\<rparr>]\<rparr>)"
  using assms by (simp add: push_def Let_def store_encode_nothing)

lemma materializeEntry_mapped:
  assumes "memoryMapped (options_m s)" and "slotIndex e \<noteq> kInvalidSlot"
    and "mappedView_m s = Some v" and "off = (slotIndex e * slotSize_m s) mod 2 ^ 64"
    and "off + 4 + payloadSize e \<le> length v"
  shows "materializeEntry s e =
           (if decode_u32 (load v off 4) = payloadSize e
            then Returned ((item e)\<lparr>payload := load v (off + 4) (payloadSize e)\<rparr>)
            else Thrown (runtime_error ''Memory-mapped payload size mismatch detected''))"
  using assms by (simp add: materializeEntry_def Let_def load_def)

text \<open>Pushing into an empty memory-mapped buffer and popping at once.\<close>

lemma pop_after_push:
  assumes "memoryMapped (options_m s)" and "\<not> shutdown_m s" and "queue_m s = []"
    and "0 < capacity_m s" and "mappedView_m s = Some v"
    and "length (payload it) \<le> maxPayloadSize (options_m s)"
    and "writeIndex_m s \<noteq> kInvalidSlot"
    and "off = (writeIndex_m s * slotSize_m s) mod 2 ^ 64"
    and "off + 4 + length (payload it) \<le> length v"
  shows "fst (push s it) = Returned ()"
    and "fst (pop (snd (push s it))) =
           (if length (payload it) < 2 ^ 32
            then Returned (Some (it\<lparr>fieldNames := fieldNames_m s\<rparr>))
            else Thrown (runtime_error ''Memory-mapped payload size mismatch detected''))"
proof -
  let ?n = "length (payload it)"
  let ?v = "store (store v off (encode_u32 (?n mod 2 ^ 32))) (off + 4) (payload it)"
  let ?e = "\<lparr>item = it\<lparr>fieldNames := fieldNames_m s, payload := []\<rparr>,
             payloadSize = ?n, slotIndex = writeIndex_m s\<rparr>"
  let ?s = "s\<lparr>mappedView_m := Some ?v,
              writeIndex_m := (writeIndex_m s + 1) mod capacity_m s,
              queue_m := queue_m s @ [?e]\<rparr>"
  have p: "push s it = (Returned (), ?s)"
    using assms by (intro push_mapped) simp_all
  then show "fst (push s it) = Returned ()" by simp
  have q: "queue_m ?s = [?e]" using assms(3) by simp
  have m: "materializeEntry ?s ?e =
             (if decode_u32 (load ?v off 4) = payloadSize ?e
              then Returned ((item ?e)\<lparr>payload := load ?v (off + 4) (payloadSize ?e)\<rparr>)
              else Thrown (runtime_error ''Memory-mapped payload size mismatch detected''))"
    using assms by (intro materializeEntry_mapped) (simp_all add: length_after_stores)
  have h: "decode_u32 (load ?v off 4) = ?n mod 2 ^ 32"
    using assms(9) by (simp add: header_after_stores decode_encode_u32)
  have b: "load ?v (off + 4) ?n = payload it"
    using assms(9) by (simp add: payload_after_stores)
  have r: "materializeEntry ?s ?e =
             (if ?n < 2 ^ 32 then Returned (it\<lparr>fieldNames := fieldNames_m s\<rparr>)
              else Thrown (runtime_error ''Memory-mapped payload size mismatch detected''))"
  proof (cases "?n < 2 ^ 32")
    case True
    then show ?thesis
      unfolding m h using assms(9) by (simp add: payload_after_stores)
  next
    case False
    then have "?n mod 2 ^ 32 \<noteq> ?n"
      by (metis mod_less_divisor zero_less_numeral zero_less_power)
    with False show ?thesis unfolding m h by simp
  qed
  show "fst (pop (snd (push s it))) =
           (if ?n < 2 ^ 32 then Returned (Some (it\<lparr>fieldNames := fieldNames_m s\<rparr>))
            else Thrown (runtime_error ''Memory-mapped payload size mismatch detected''))"
  proof -
    have "snd (push s it) = ?s" by (simp only: p snd_conv)
    moreover have "fst (pop ?s) = wrap_optional (materializeEntry ?s ?e)"
      by (simp only: pop_front [OF q] fst_conv)
    moreover have "wrap_optional (materializeEntry ?s ?e) =
           (if ?n < 2 ^ 32 then Returned (Some (it\<lparr>fieldNames := fieldNames_m s\<rparr>))
            else Thrown (runtime_error ''Memory-mapped payload size mismatch detected''))"
      by (simp only: r wrap_optional.simps if_distrib [of wrap_optional])
    ultimately show ?thesis by (simp only:)
  qed
qed

section \<open>Round trip through a slot\<close>

lemma construct_large_ring: "construct large_ring_options (FileContent []) = Inr large_ring"
  by (simp add: construct_mapped large_ring_options_def large_ring_def Let_def
      initializeMapping_def normalizeOptions_def default_Options_def default_FieldNames_def)

text \<open>
  Claim C3 at a payload of \<open>2 ^ 32\<close> bytes, which the configured maximum admits:
  \<open>push\<close> accepts the item and stores the length cut to 32 bits, which is 0; the
  \<open>pop\<close> that follows compares this 0 with the recorded size and throws the
  size-mismatch error instead of returning the payload.
\<close>

theorem roundtrip_fails_at_4GiB:
  "construct large_ring_options (FileContent []) = Inr large_ring \<and>
   length (payload large_item) = maxPayloadSize (options_m large_ring) \<and>
   fst (push large_ring large_item) = Returned () \<and>
   fst (pop (snd (push large_ring large_item))) =
     Thrown (runtime_error ''Memory-mapped payload size mismatch detected'')"
proof -
  have a: "memoryMapped (options_m large_ring)" "\<not> shutdown_m large_ring"
    "queue_m large_ring = []" "0 < capacity_m large_ring"
    "mappedView_m large_ring = Some (replicate 4294967300 0)"
    "length (payload large_item) \<le> maxPayloadSize (options_m large_ring)"
    "writeIndex_m large_ring \<noteq> kInvalidSlot"
    "0 = (writeIndex_m large_ring * slotSize_m large_ring) mod 2 ^ 64"
    "0 + 4 + length (payload large_item) \<le> length (replicate 4294967300 (0::byte))"
    by (simp_all add: large_ring_def large_ring_options_def large_item_def example_item_def
        kInvalidSlot_def size_max_def)
  have n: "length (payload large_item) = 4294967296"
    by (simp add: large_item_def example_item_def)
  have m: "maxPayloadSize (options_m large_ring) = 4294967296"
    by (simp add: large_ring_def large_ring_options_def)
  from pop_after_push [OF a] n m construct_large_ring show ?thesis by simp
qed

section \<open>The ring invariant\<close>

lemma slot_end: "j < c \<Longrightarrow> j * S + S \<le> c * (S::nat)"
proof -
  assume "j < c"
  then have "Suc j * S \<le> c * S" by (intro mult_le_mono1) simp
  then show ?thesis by (simp add: add.commute)
qed

lemma mod_shift_distinct:
  assumes "i < j" and "j - i < c"
  shows "(a + i) mod c \<noteq> (a + j) mod (c::nat)"
proof
  assume eq: "(a + i) mod c = (a + j) mod c"
  have "a + i \<le> a + j" using assms(1) by simp
  from mod_eq_dvd_iff_nat [OF this, of c] eq [symmetric] have "c dvd j - i" by simp
  moreover have "0 < j - i" using assms(1) by simp
  ultimately show False using assms(2) by (meson nat_dvd_not_less)
qed

lemma load_outside_stores:
  assumes "off + 4 + length p \<le> length v"
    and "q + n \<le> off \<or> off + 4 + length p \<le> q"
  shows "load (store (store v off (encode_u32 k)) (off + 4) p) q n = load v q n"
proof -
  have len: "length (store v off (encode_u32 k)) = length v"
    using assms(1) by (simp add: length_store)
  from assms(2) show ?thesis
  proof
    assume b: "q + n \<le> off"
    then have "load (store (store v off (encode_u32 k)) (off + 4) p) q n =
                 load (store v off (encode_u32 k)) q n"
      using assms(1) len by (simp add: load_store_before)
    also have "\<dots> = load v q n"
      using assms(1) b by (simp add: load_store_before)
    finally show ?thesis .
  next
    assume a: "off + 4 + length p \<le> q"
    then have "load (store (store v off (encode_u32 k)) (off + 4) p) q n =
                 load (store v off (encode_u32 k)) q n"
      using assms(1) len by (simp add: load_store_after)
    also have "\<dots> = load v q n"
      using assms(1) a by (simp add: load_store_after)
    finally show ?thesis .
  qed
qed

lemma ring_inv_slot:
  assumes "ring_inv s" and "e \<in> set (queue_m s)"
  shows "slotIndex e < capacity_m s"
proof -
  from assms(1) obtain first where
    m: "map slotIndex (queue_m s) =
          map (\<lambda>i. (first + i) mod capacity_m s) [0..<length (queue_m s)]"
    and c: "0 < capacity_m s"
    unfolding ring_inv_def by blast
  from assms(2) have "slotIndex e \<in> set (map slotIndex (queue_m s))" by simp
  then have "slotIndex e \<in> set (map (\<lambda>i. (first + i) mod capacity_m s)
                                    [0..<length (queue_m s)])"
    by (simp only: m)
  then obtain i where "slotIndex e = (first + i) mod capacity_m s" by auto
  then show ?thesis using c by simp
qed

lemma ring_inv_materialize:
  assumes "ring_inv s" and "e \<in> set (queue_m s)" and "mappedView_m s = Some v"
  shows "materializeEntry s e =
           Returned ((item e)\<lparr>payload :=
             load v (slotIndex e * slotSize_m s + 4) (payloadSize e)\<rparr>)"
proof -
  let ?S = "slotSize_m s" and ?c = "capacity_m s"
  from assms(1,3) have
    mm: "memoryMapped (options_m s)" and S: "?S = 4 + maxPayloadSize (options_m s)"
    and big: "?S * ?c < 2 ^ 64" and len: "length v = ?S * ?c"
    unfolding ring_inv_def by auto
  from assms have e: "payloadSize e \<le> maxPayloadSize (options_m s)"
    "decode_u32 (load v (slotIndex e * ?S) 4) = payloadSize e"
    unfolding ring_inv_def by auto
  have j: "slotIndex e < ?c" by (rule ring_inv_slot [OF assms(1,2)])
  have fit: "slotIndex e * ?S + ?S \<le> ?c * ?S" by (rule slot_end [OF j])
  then have lt: "slotIndex e * ?S < 2 ^ 64" using big S by (simp add: mult.commute)
  then have off: "slotIndex e * ?S = (slotIndex e * ?S) mod 2 ^ 64" by simp
  have "?c \<le> ?S * ?c" using S by simp
  then have "?c < 2 ^ 64" using big by (rule le_less_trans)
  then have "slotIndex e < 2 ^ 64 - 1" using j by simp
  then have valid: "slotIndex e \<noteq> kInvalidSlot" by (simp add: kInvalidSlot_def size_max_def)
  have inside: "slotIndex e * ?S + 4 + payloadSize e \<le> length v"
    using fit e(1) S len by (simp add: mult.commute)
  from materializeEntry_mapped [OF mm valid assms(3) off inside] e(2)
  show ?thesis by simp
qed

lemma other_slot_untouched:
  assumes "j \<noteq> w" and "w < c" and "j < c" and "length v = S * c"
    and "4 + length p \<le> S" and "d + n \<le> S"
  shows "load (store (store v (w * S) (encode_u32 k)) (w * S + 4) p) (j * S + d) n =
           load v (j * S + d) n"
proof -
  have "w * S + S \<le> c * S" by (rule slot_end [OF assms(2)])
  then have inside: "w * S + 4 + length p \<le> length v"
    using assms(4,5) by (simp add: mult.commute)
  have "(j * S + d) + n \<le> w * S \<or> w * S + 4 + length p \<le> j * S + d"
  proof (cases "j < w")
    case True
    from slot_end [OF True, of S] assms(6) show ?thesis by simp
  next
    case False
    with assms(1) have "w < j" by simp
    from slot_end [OF this, of S] assms(5) show ?thesis by simp
  qed
  with inside show ?thesis by (rule load_outside_stores)
qed

lemma ring_inv_push:
  assumes inv: "ring_inv s" and running: "\<not> shutdown_m s"
    and room: "length (queue_m s) < capacity_m s"
    and fits: "length (payload it) \<le> maxPayloadSize (options_m s)"
  shows "fst (push s it) = Returned ()"
    and "ring_inv (snd (push s it))"
    and "contents (snd (push s it)) = contents s @ [Returned (it\<lparr>fieldNames := fieldNames_m s\<rparr>)]"
proof -
  let ?S = "slotSize_m s" and ?c = "capacity_m s" and ?n = "length (queue_m s)"
  let ?w = "writeIndex_m s" and ?P = "payload it"
  from inv obtain v first where
    mm: "memoryMapped (options_m s)" and c: "0 < ?c"
    and S: "?S = 4 + maxPayloadSize (options_m s)" and big: "?S * ?c < 2 ^ 64"
    and small: "maxPayloadSize (options_m s) < 2 ^ 32"
    and view: "mappedView_m s = Some v" and len: "length v = ?S * ?c"
    and w: "?w = (first + ?n) mod ?c"
    and slots: "map slotIndex (queue_m s) = map (\<lambda>i. (first + i) mod ?c) [0..<?n]"
    and entries: "\<forall>e \<in> set (queue_m s). payloadSize e \<le> maxPayloadSize (options_m s) \<and>
                    decode_u32 (load v (slotIndex e * ?S) 4) = payloadSize e"
    unfolding ring_inv_def by blast
  let ?v = "store (store v (?w * ?S) (encode_u32 (length ?P mod 2 ^ 32))) (?w * ?S + 4) ?P"
  let ?e = "\<lparr>item = it\<lparr>fieldNames := fieldNames_m s, payload := []\<rparr>,
             payloadSize = length ?P, slotIndex = ?w\<rparr>"
  let ?s = "s\<lparr>mappedView_m := Some ?v, writeIndex_m := (?w + 1) mod ?c,
              queue_m := queue_m s @ [?e]\<rparr>"
  have wc: "?w < ?c" using w c by simp
  have fit: "?w * ?S + ?S \<le> ?c * ?S" by (rule slot_end [OF wc])
  then have "?w * ?S < 2 ^ 64" using big S by (simp add: mult.commute)
  then have off: "?w * ?S = (?w * ?S) mod 2 ^ 64" by simp
  have inside: "?w * ?S + 4 + length ?P \<le> length v"
    using fit fits S len by (simp add: mult.commute)
  have p: "push s it = (Returned (), ?s)"
    by (rule push_mapped [OF mm running room view fits off inside])
  then show "fst (push s it) = Returned ()" by simp
  have lenv: "length ?v = length v" using inside by (rule length_after_stores)
  have psmall: "length ?P mod 2 ^ 32 = length ?P" using fits small by simp
  have hdr: "decode_u32 (load ?v (?w * ?S) 4) = length ?P"
    using inside by (simp only: header_after_stores decode_encode_u32 psmall)
  have body: "load ?v (?w * ?S + 4) (length ?P) = ?P"
    using inside by (rule payload_after_stores)
  have old_slot: "slotIndex e < ?c \<and> slotIndex e \<noteq> ?w" if "e \<in> set (queue_m s)" for e
  proof -
    from that have "slotIndex e \<in> set (map slotIndex (queue_m s))" by simp
    then have "slotIndex e \<in> set (map (\<lambda>i. (first + i) mod ?c) [0..<?n])"
      by (simp only: slots)
    then obtain i where i: "i < ?n" "slotIndex e = (first + i) mod ?c" by auto
    have "?n - i < ?c" using room by simp
    from mod_shift_distinct [OF i(1) this, of first] i(2) w c show ?thesis by simp
  qed
  have untouched: "load ?v (slotIndex e * ?S + d) k = load v (slotIndex e * ?S + d) k"
    if "e \<in> set (queue_m s)" and "d + k \<le> ?S" for e d k
  proof -
    from old_slot [OF that(1)] have j: "slotIndex e < ?c" "slotIndex e \<noteq> ?w" by simp_all
    have "4 + length ?P \<le> ?S" using fits S by simp
    from other_slot_untouched [OF j(2) wc j(1) len this that(2)] show ?thesis .
  qed
  have fours: "4 \<le> ?S" using S by simp
  have inv': "ring_inv ?s"
    unfolding ring_inv_def
  proof (intro conjI exI [of _ ?v] exI [of _ first])
    show "writeIndex_m ?s = (first + length (queue_m ?s)) mod capacity_m ?s"
      using w by (simp add: mod_Suc_eq)
    show "map slotIndex (queue_m ?s) =
            map (\<lambda>i. (first + i) mod capacity_m ?s) [0..<length (queue_m ?s)]"
      using slots w by simp
    show "\<forall>e \<in> set (queue_m ?s). payloadSize e \<le> maxPayloadSize (options_m ?s) \<and>
            decode_u32 (load ?v (slotIndex e * slotSize_m ?s) 4) = payloadSize e"
    proof
      fix e assume "e \<in> set (queue_m ?s)"
      then consider "e \<in> set (queue_m s)" | "e = ?e" by auto
      then show "payloadSize e \<le> maxPayloadSize (options_m ?s) \<and>
                 decode_u32 (load ?v (slotIndex e * slotSize_m ?s) 4) = payloadSize e"
      proof cases
        case 1
        from untouched [OF 1, of 0 4] fours entries 1 show ?thesis by simp
      next
        case 2
        then show ?thesis using fits hdr by simp
      qed
    qed
  qed (use mm c S big small room lenv len in simp_all)
  then show "ring_inv (snd (push s it))" by (simp only: p snd_conv)
  have view': "mappedView_m ?s = Some ?v" by simp
  have old: "materializeEntry ?s e = materializeEntry s e" if "e \<in> set (queue_m s)" for e
  proof -
    have in': "e \<in> set (queue_m ?s)" using that by simp
    from entries that have "4 + payloadSize e \<le> ?S" using S by simp
    from untouched [OF that this]
    have "load ?v (slotIndex e * ?S + 4) (payloadSize e) =
            load v (slotIndex e * ?S + 4) (payloadSize e)" .
    with ring_inv_materialize [OF inv' in' view'] ring_inv_materialize [OF inv that view]
    show ?thesis by simp
  qed
  have new: "materializeEntry ?s ?e = Returned (it\<lparr>fieldNames := fieldNames_m s\<rparr>)"
  proof -
    have "?e \<in> set (queue_m ?s)" by simp
    from ring_inv_materialize [OF inv' this view'] body show ?thesis by simp
  qed
  have "contents ?s = contents s @ [Returned (it\<lparr>fieldNames := fieldNames_m s\<rparr>)]"
    using old new by (simp add: contents_def)
  then show "contents (snd (push s it)) =
               contents s @ [Returned (it\<lparr>fieldNames := fieldNames_m s\<rparr>)]"
    by (simp only: p snd_conv)
qed

lemma ring_inv_dequeue:
  assumes inv: "ring_inv s" and q: "queue_m s = e # es"
  shows "ring_inv (s\<lparr>queue_m := es\<rparr>)"
proof -
  let ?c = "capacity_m s"
  from inv obtain v first where
    props: "memoryMapped (options_m s)" "0 < ?c"
      "slotSize_m s = 4 + maxPayloadSize (options_m s)" "slotSize_m s * ?c < 2 ^ 64"
      "maxPayloadSize (options_m s) < 2 ^ 32" "length (queue_m s) \<le> ?c"
      "mappedView_m s = Some v" "length v = slotSize_m s * ?c"
    and w: "writeIndex_m s = (first + length (queue_m s)) mod ?c"
    and slots: "map slotIndex (queue_m s) =
                  map (\<lambda>i. (first + i) mod ?c) [0..<length (queue_m s)]"
    and entries: "\<forall>e \<in> set (queue_m s). payloadSize e \<le> maxPayloadSize (options_m s) \<and>
                    decode_u32 (load v (slotIndex e * slotSize_m s) 4) = payloadSize e"
    unfolding ring_inv_def by blast
  have upt: "[0..<Suc (length es)] = 0 # map Suc [0..<length es]"
    by (simp only: upt_conv_Cons map_Suc_upt zero_less_Suc)
  from slots have "slotIndex e # map slotIndex es =
      (first + 0) mod ?c # map (\<lambda>i. (first + Suc i) mod ?c) [0..<length es]"
    unfolding q by (simp only: list.map length_Cons upt map_map o_def)
  then have rest: "map slotIndex es = map (\<lambda>i. (Suc first + i) mod ?c) [0..<length es]"
    by simp
  show ?thesis
    unfolding ring_inv_def
  proof (intro conjI exI [of _ v] exI [of _ "Suc first"])
    show "writeIndex_m (s\<lparr>queue_m := es\<rparr>) =
            (Suc first + length (queue_m (s\<lparr>queue_m := es\<rparr>))) mod
              capacity_m (s\<lparr>queue_m := es\<rparr>)"
      using w q by simp
    show "map slotIndex (queue_m (s\<lparr>queue_m := es\<rparr>)) =
            map (\<lambda>i. (Suc first + i) mod capacity_m (s\<lparr>queue_m := es\<rparr>))
              [0..<length (queue_m (s\<lparr>queue_m := es\<rparr>))]"
      using rest by simp
    show "\<forall>x \<in> set (queue_m (s\<lparr>queue_m := es\<rparr>)).
            payloadSize x \<le> maxPayloadSize (options_m (s\<lparr>queue_m := es\<rparr>)) \<and>
            decode_u32 (load v (slotIndex x * slotSize_m (s\<lparr>queue_m := es\<rparr>)) 4) =
              payloadSize x"
      using entries q by simp
  qed (use props q in simp_all)
qed

lemma ring_inv_pop: "ring_inv s \<Longrightarrow> ring_inv (snd (pop s))"
  by (cases "queue_m s") (simp_all add: pop_def ring_inv_dequeue)

lemma ring_inv_tryPop: "ring_inv s \<Longrightarrow> ring_inv (snd (tryPop s))"
  by (cases "queue_m s") (simp_all add: tryPop_def ring_inv_dequeue)

lemma ring_inv_shutdown_flag: "ring_inv (s\<lparr>shutdown_m := b\<rparr>) = ring_inv s"
  by (simp add: ring_inv_def)

lemma ring_inv_shutdown: "ring_inv s \<Longrightarrow> ring_inv (shutdown s)"
  by (simp add: shutdown_def ring_inv_shutdown_flag)

lemma push_changes_only_when_admitted:
  "snd (push s it) = s \<or>
   (memoryMapped (options_m s) \<longrightarrow>
      \<not> shutdown_m s \<and> length (queue_m s) < capacity_m s \<and>
      length (payload it) \<le> maxPayloadSize (options_m s))"
  by (simp add: push_def Let_def split: option.splits)

lemma ring_inv_push_any: "ring_inv s \<Longrightarrow> ring_inv (snd (push s it))"
proof -
  assume inv: "ring_inv s"
  then have "memoryMapped (options_m s)" by (simp add: ring_inv_def)
  with push_changes_only_when_admitted [of s it]
  consider "snd (push s it) = s"
    | "\<not> shutdown_m s" "length (queue_m s) < capacity_m s"
      "length (payload it) \<le> maxPayloadSize (options_m s)"
    by blast
  then show ?thesis
  proof cases
    case 1
    with inv show ?thesis by simp
  next
    case 2
    with inv show ?thesis by (intro ring_inv_push(2))
  qed
qed

lemma push_options [simp]: "options_m (snd (push s it)) = options_m s"
  by (simp add: push_def Let_def split: option.splits)

lemma apply_op_options: "options_m (apply_op s op) = options_m s"
  by (cases op) (simp_all add: pop_def tryPop_def shutdown_def split: list.splits)

lemma run_ops_options: "options_m (run_ops s ops) = options_m s"
  unfolding run_ops_def by (induction ops arbitrary: s) (simp_all add: apply_op_options)

lemma ring_inv_apply_op: "ring_inv s \<Longrightarrow> ring_inv (apply_op s op)"
  by (cases op) (simp_all add: ring_inv_push_any ring_inv_pop ring_inv_tryPop ring_inv_shutdown)

lemma ring_inv_run_ops: "ring_inv s \<Longrightarrow> ring_inv (run_ops s ops)"
  unfolding run_ops_def by (induction ops arbitrary: s) (simp_all add: ring_inv_apply_op)

lemma construct_ring_inv:
  assumes "construct opts env = Inr s" and "memoryMapped opts"
    and "maxPayloadSize (normalizeOptions opts) < 2 ^ 32"
    and "(4 + maxPayloadSize (normalizeOptions opts)) * capacity (normalizeOptions opts) < 2 ^ 64"
  shows "ring_inv s"
proof -
  let ?S = "4 + maxPayloadSize (normalizeOptions opts)" and ?c = "capacity (normalizeOptions opts)"
  have c: "0 < ?c" by (simp add: normalizeOptions_capacity)
  then have "?S \<le> ?S * ?c" by simp
  then have "?S < 2 ^ 64" using assms(4) by (rule le_less_trans)
  then have S: "?S mod 2 ^ 64 = ?S" by simp
  have m: "(?S * ?c) mod 2 ^ 64 = ?S * ?c" using assms(4) by simp
  from assms(1) obtain view where
    v: "initializeMapping env (?S * ?c) = Inr view"
    and s: "s = \<lparr>options_m = normalizeOptions opts, capacity_m = ?c,
                  fieldNames_m = optFieldNames (normalizeOptions opts), queue_m = [],
                  shutdown_m = False, slotSize_m = ?S, writeIndex_m = 0,
                  mappedView_m = Some view, mappedSize_m = ?S * ?c\<rparr>"
    by (simp only: construct_mapped [OF assms(2)] Let_def S m split: sum.splits) auto
  have "length view = ?S * ?c" using v by (rule length_initializeMapping)
  moreover have "\<exists>first. first mod ?c = 0" by (rule exI [of _ 0]) simp
  ultimately show ?thesis
    using c assms(2,3,4) by (simp add: ring_inv_def s normalizeOptions_memoryMapped)
qed

text \<open>No queued entry of a buffer with such a configuration is rejected by \<open>materializeEntry\<close>.\<close>

lemma queue_readable:
  assumes "construct opts env = Inr s0"
    and "memoryMapped opts \<longrightarrow>
           maxPayloadSize (normalizeOptions opts) < 2 ^ 32 \<and>
           (4 + maxPayloadSize (normalizeOptions opts)) * capacity (normalizeOptions opts)
             < 2 ^ 64"
    and "e \<in> set (queue_m (run_ops s0 ops))"
  shows "\<exists>it. materializeEntry (run_ops s0 ops) e = Returned it"
proof (cases "memoryMapped opts")
  case True
  with assms(2) have a: "maxPayloadSize (normalizeOptions opts) < 2 ^ 32"
    and b: "(4 + maxPayloadSize (normalizeOptions opts)) * capacity (normalizeOptions opts)
              < 2 ^ 64"
    by blast+
  have "ring_inv s0" by (rule construct_ring_inv [OF assms(1) True a b])
  then have inv: "ring_inv (run_ops s0 ops)" by (rule ring_inv_run_ops)
  then obtain v where "mappedView_m (run_ops s0 ops) = Some v"
    unfolding ring_inv_def by blast
  from ring_inv_materialize [OF inv assms(3) this] show ?thesis by blast
next
  case False
  with assms(1) have "\<not> memoryMapped (options_m s0)"
    by (auto simp: construct_heap normalizeOptions_memoryMapped)
  moreover have "options_m (run_ops s0 ops) = options_m s0"
    by (rule run_ops_options)
  ultimately show ?thesis by (simp add: materializeEntry_heap)
qed

text \<open>
  The round trip where the length header can hold the size: in every state a buffer with
  such a configuration reaches, a \<open>push\<close> that is admitted appends the item to what the
  queue will yield and alters nothing of what was queued before, wherever the write
  index stands; popping the earlier entries and then one more returns the item with the
  payload it was pushed with.
\<close>

lemma ring_roundtrip:
  assumes "construct opts env = Inr s0" and "memoryMapped opts"
    and "maxPayloadSize (normalizeOptions opts) < 2 ^ 32"
    and "(4 + maxPayloadSize (normalizeOptions opts)) * capacity (normalizeOptions opts) < 2 ^ 64"
    and "s = run_ops s0 ops" and "\<not> shutdown_m s"
    and "length (queue_m s) < capacity_m s"
    and "length (payload it) \<le> maxPayloadSize (options_m s)"
  shows "fst (push s it) = Returned ()"
    and "contents (snd (push s it)) =
           contents s @ [Returned (it\<lparr>fieldNames := fieldNames_m s\<rparr>)]"
    and "fst (pops (Suc (length (queue_m s))) (snd (push s it))) =
           map wrap_optional (contents s) @
             [Returned (Some (it\<lparr>fieldNames := fieldNames_m s\<rparr>))]"
proof -
  from assms(1-4) have "ring_inv s0" by (rule construct_ring_inv)
  then have inv: "ring_inv s" unfolding assms(5) by (rule ring_inv_run_ops)
  note p = ring_inv_push [OF inv assms(6,7,8)]
  show "fst (push s it) = Returned ()" by (rule p(1))
  show c: "contents (snd (push s it)) =
             contents s @ [Returned (it\<lparr>fieldNames := fieldNames_m s\<rparr>)]"
    by (rule p(3))
  have "length (queue_m (snd (push s it))) = Suc (length (queue_m s))"
    using arg_cong [OF c, of length] by (simp add: contents_def)
  with pops_queue [OF refl, of "snd (push s it)"]
  have "fst (pops (Suc (length (queue_m s))) (snd (push s it))) =
          map wrap_optional (contents (snd (push s it)))"
    by (simp add: contents_def)
  then show "fst (pops (Suc (length (queue_m s))) (snd (push s it))) =
           map wrap_optional (contents s) @
             [Returned (Some (it\<lparr>fieldNames := fieldNames_m s\<rparr>))]"
    by (simp add: c)
qed

section \<open>Draining a constructed buffer after shutdown\<close>

lemma ring2_state:
  "ring2 = small_ring
     \<lparr>mappedView_m := Some [2, 0, 0, 0, 0x41, 0x42, 1, 0, 0, 0, 7, 0], writeIndex_m := 0,
      queue_m := [\<lparr>item = (example_item [])\<lparr>fieldNames := default_FieldNames\<rparr>,
                   payloadSize = 2, slotIndex = 0\<rparr>,
                  \<lparr>item = (example_item [])\<lparr>fieldNames := default_FieldNames\<rparr>,
                   payloadSize = 1, slotIndex = 1\<rparr>]\<rparr>"
  by (simp add: ring2_def run_ops_def push_def small_ring_def small_ring_options_def
      example_item_def Let_def store_def encode_u32_def)

text \<open>
  Draining where the slot format fits. Take a buffer in any state it reaches from
  construction; in memory-mapped mode let the maximum payload size fit the 32-bit length
  header and the size of the region fit \<open>std::size_t\<close>. When \<open>shutdown\<close> is called
  with \<open>K\<close> entries queued, the next \<open>K\<close> calls of \<open>pop\<close> return the \<open>K\<close> queued
  items in order; on the buffer \<open>d\<close> they leave, \<open>pop\<close> and \<open>tryPop\<close> return no
  item, and no sequence of calls changes \<open>d\<close> any more. A \<open>push\<close> on a buffer that
  is shut down returns normally and leaves the buffer as it is.
\<close>

lemma drain_fitting_configuration:
  assumes "construct opts env = Inr s0"
    and "memoryMapped opts \<longrightarrow>
           maxPayloadSize (normalizeOptions opts) < 2 ^ 32 \<and>
           (4 + maxPayloadSize (normalizeOptions opts)) * capacity (normalizeOptions opts)
             < 2 ^ 64"
    and "s = run_ops s0 ops"
    and "K = length (queue_m s)" and "d = snd (pops K (shutdown s))"
  shows "length (fst (pops K (shutdown s))) = K \<and>
         (\<forall>r \<in> set (fst (pops K (shutdown s))). \<exists>it. r = Returned (Some it)) \<and>
         fst (pops K (shutdown s)) = map wrap_optional (contents s) \<and>
         pop d = (Returned None, d) \<and> tryPop d = (Returned None, d) \<and>
         (\<forall>ops'. run_ops d ops' = d) \<and>
         (\<forall>t it. shutdown_m t \<longrightarrow> push t it = (Returned (), t))"
proof -
  have readable: "\<forall>e \<in> set (queue_m s). \<exists>it. materializeEntry s e = Returned it"
    unfolding assms(3) using queue_readable [OF assms(1,2)] by blast
  have eq: "map wrap_optional (contents s) =
              map (\<lambda>e. wrap_optional (materializeEntry s e)) (queue_m s)"
    by (simp add: contents_def)
  show ?thesis
    unfolding eq by (rule drain_readable_queue [OF readable assms(4,5)])
qed

lemma drain_small_ring:
  "construct small_ring_options (FileContent []) = Inr small_ring \<and>
   maxPayloadSize (normalizeOptions small_ring_options) < 2 ^ 32 \<and>
   (4 + maxPayloadSize (normalizeOptions small_ring_options))
     * capacity (normalizeOptions small_ring_options) < 2 ^ 64 \<and>
   length (queue_m ring2) = 2 \<and>
   fst (pops 2 (shutdown ring2)) =
     [Returned (Some ((example_item [0x41, 0x42])\<lparr>fieldNames := default_FieldNames\<rparr>)),
      Returned (Some ((example_item [7])\<lparr>fieldNames := default_FieldNames\<rparr>))] \<and>
   pop (snd (pops 2 (shutdown ring2))) = (Returned None, snd (pops 2 (shutdown ring2)))"
proof -
  have sizes: "maxPayloadSize (normalizeOptions small_ring_options) < 2 ^ 32"
    "(4 + maxPayloadSize (normalizeOptions small_ring_options))
       * capacity (normalizeOptions small_ring_options) < 2 ^ 64"
    by (simp_all add: normalizeOptions_maxPayloadSize normalizeOptions_capacity
        small_ring_options_def)
  then have sane: "memoryMapped small_ring_options \<longrightarrow>
      maxPayloadSize (normalizeOptions small_ring_options) < 2 ^ 32 \<and>
      (4 + maxPayloadSize (normalizeOptions small_ring_options))
        * capacity (normalizeOptions small_ring_options) < 2 ^ 64"
    by simp
  have len: "2 = length (queue_m ring2)" by (simp add: ring2_state)
  have c: "map wrap_optional (contents ring2) =
     [Returned (Some ((example_item [0x41, 0x42])\<lparr>fieldNames := default_FieldNames\<rparr>)),
      Returned (Some ((example_item [7])\<lparr>fieldNames := default_FieldNames\<rparr>))]"
    by (simp add: contents_def ring2_state materializeEntry_def small_ring_def
        small_ring_options_def kInvalidSlot_def size_max_def Let_def load_def decode_u32_def
        example_item_def)
  note t = drain_fitting_configuration [OF construct_small_ring sane ring2_def len refl]
  have results: "fst (pops 2 (shutdown ring2)) = map wrap_optional (contents ring2)"
    using t by blast
  have after: "pop (snd (pops 2 (shutdown ring2))) =
                 (Returned None, snd (pops 2 (shutdown ring2)))"
    using t by blast
  from construct_small_ring sizes len [symmetric] results [unfolded c] after
  show ?thesis by blast
qed

lemma pop_shutdown_front:
  assumes "queue_m t \<noteq> []"
  shows "fst (pop (shutdown t)) = fst (pop t)"
proof -
  from assms obtain e es where q: "queue_m t = e # es" by (cases "queue_m t") simp_all
  then have "queue_m (shutdown t) = e # es" by simp
  from pop_front [OF this] pop_front [OF q] show ?thesis by simp
qed

text \<open>
  Claim C2 at a queued payload of \<open>2 ^ 32\<close> bytes, which the configured maximum
  admits: the buffer is constructed, the item is pushed and \<open>shutdown\<close> is called with
  this one entry queued. The \<open>pop\<close> that follows does not return the item: it throws the
  size-mismatch error, because \<open>push\<close> stored the length cut to 32 bits.
\<close>

theorem drain_fails_at_4GiB:
  "construct large_ring_options (FileContent []) = Inr large_ring \<and>
   fst (push large_ring large_item) = Returned () \<and>
   length (queue_m (shutdown (snd (push large_ring large_item)))) = 1 \<and>
   fst (pop (shutdown (snd (push large_ring large_item)))) =
     Thrown (runtime_error ''Memory-mapped payload size mismatch detected'')"
proof -
  have a: "memoryMapped (options_m large_ring)" "\<not> shutdown_m large_ring"
    "queue_m large_ring = []" "0 < capacity_m large_ring"
    "mappedView_m large_ring = Some (replicate 4294967300 0)"
    "length (payload large_item) \<le> maxPayloadSize (options_m large_ring)"
    "writeIndex_m large_ring \<noteq> kInvalidSlot"
    "0 = (writeIndex_m large_ring * slotSize_m large_ring) mod 2 ^ 64"
    "0 + 4 + length (payload large_item) \<le> length (replicate 4294967300 (0::byte))"
    by (simp_all add: large_ring_def large_ring_options_def large_item_def example_item_def
        kInvalidSlot_def size_max_def)
  have room: "length (queue_m large_ring) < capacity_m large_ring"
    using a(3,4) by simp
  note pushed = push_mapped [OF a(1,2) room a(5,6,8,9)]
  have one: "length (queue_m (snd (push large_ring large_item))) = 1"
    unfolding pushed using a(3) by simp
  then have "queue_m (snd (push large_ring large_item)) \<noteq> []" by auto
  then have same: "fst (pop (shutdown (snd (push large_ring large_item)))) =
                     fst (pop (snd (push large_ring large_item)))"
    by (rule pop_shutdown_front)
  have n: "\<not> length (payload large_item) < 2 ^ 32"
    by (simp add: large_item_def example_item_def)
  from pop_after_push [OF a] n
  have ok: "fst (push large_ring large_item) = Returned ()"
    and thrown: "fst (pop (snd (push large_ring large_item))) =
      Thrown (runtime_error ''Memory-mapped payload size mismatch detected'')"
    by simp_all
  from construct_large_ring ok one same thrown show ?thesis by simp
qed

section \<open>The CSV line\<close>

lemma escape_fold:
  "foldl (\<lambda>escaped ch. let escaped = escaped @ [ch]
                         in if ch = CHR 0x22 then escaped @ [CHR 0x22] else escaped) acc v =
   acc @ concat (map (\<lambda>ch. if ch = CHR 0x22 then [ch, ch] else [ch]) v)"
  by (induction v arbitrary: acc) (simp_all add: Let_def)

lemma escape_doubles:
  "escape v = concat (map (\<lambda>ch. if ch = CHR 0x22 then [ch, ch] else [ch]) v)"
  by (simp add: escape_def escape_fold)

lemma appendColumn_quoted:
  "quoteStrings st \<Longrightarrow>
   appendColumn st (oss, first) v =
     ((if first then oss else oss @ [delimiter st]) @ quoted v, False)"
  by (simp add: appendColumn_def Let_def quoted_def escape_doubles)

lemma to_hex_digit: "n < 16 \<Longrightarrow> to_hex n = [hex_digit n]"
  by (subst to_hex.simps) simp

lemma hex_digit_0: "hex_digit 0 = CHR ''0''"
  by (simp add: hex_digit_def)

lemma setw_to_hex:
  "setw_fill 2 (CHR ''0'') (to_hex (unat (b::byte))) = hex_byte b"
proof (cases "unat b < 16")
  case True
  then show ?thesis
    by (simp add: to_hex_digit setw_fill_def hex_byte_def hex_digit_0)
next
  case False
  have "unat b < 2 ^ LENGTH(8)" by (rule unsigned_less)
  then have "unat b < 256" by simp
  then have d: "unat b div 16 < 16" by simp
  from False have "to_hex (unat b) = to_hex (unat b div 16) @ [hex_digit (unat b mod 16)]"
    by (subst to_hex.simps) simp
  then show ?thesis
    using d by (simp add: to_hex_digit setw_fill_def hex_byte_def)
qed

lemma hex_pairs_Cons:
  "hex_pairs (b # bs) = (if bs = [] then hex_byte b else hex_byte b @ '' '' @ hex_pairs bs)"
  by (cases bs) simp_all

lemma hex_fold:
  "k \<le> length p \<Longrightarrow>
   foldl (\<lambda>out i. let out = out @ setw_fill 2 (CHR ''0'') (to_hex (unat (p ! i)))
                   in if i + 1 < length p then out @ '' '' else out) acc [k..<length p] =
   acc @ hex_pairs (drop k p)"
proof (induction "length p - k" arbitrary: k acc)
  case 0
  then show ?case by simp
next
  case (Suc d)
  let ?f = "\<lambda>out i. let out = out @ setw_fill 2 (CHR ''0'') (to_hex (unat (p ! i)))
                      in if i + 1 < length p then out @ '' '' else out"
  from Suc.hyps(2) have k: "k < length p" by simp
  have d: "d = length p - Suc k" using Suc.hyps(2) by simp
  have le: "Suc k \<le> length p" using k by simp
  have ih: "foldl ?f (?f acc k) [Suc k..<length p] = ?f acc k @ hex_pairs (drop (Suc k) p)"
    by (rule Suc.hyps(1) [OF d le])
  have "foldl ?f acc [k..<length p] = foldl ?f (?f acc k) [Suc k..<length p]"
    using k by (simp only: upt_conv_Cons foldl_Cons)
  also note ih
  also have "?f acc k @ hex_pairs (drop (Suc k) p) = acc @ hex_pairs (drop k p)"
  proof (cases "Suc k < length p")
    case True
    then have ne: "drop (Suc k) p \<noteq> []" by simp
    have "hex_pairs (drop k p) = hex_pairs (p ! k # drop (Suc k) p)"
      using k by (simp only: Cons_nth_drop_Suc)
    also have "\<dots> = hex_byte (p ! k) @ '' '' @ hex_pairs (drop (Suc k) p)"
      using ne by (simp only: hex_pairs_Cons if_False)
    finally have hp: "hex_pairs (drop k p) =
                        hex_byte (p ! k) @ '' '' @ hex_pairs (drop (Suc k) p)" .
    have fk: "?f acc k = acc @ hex_byte (p ! k) @ '' ''"
      using True by (simp add: Let_def setw_to_hex)
    show ?thesis unfolding fk hp by (simp only: append_assoc)
  next
    case False
    then have e: "drop (Suc k) p = []" by simp
    have "hex_pairs (drop k p) = hex_pairs (p ! k # drop (Suc k) p)"
      using k by (simp only: Cons_nth_drop_Suc)
    also have "\<dots> = hex_byte (p ! k)"
      by (simp only: e hex_pairs.simps)
    finally have hp: "hex_pairs (drop k p) = hex_byte (p ! k)" .
    have fk: "?f acc k = acc @ hex_byte (p ! k)"
      using False by (simp add: Let_def setw_to_hex)
    show ?thesis unfolding fk hp e by (simp only: hex_pairs.simps append_Nil2)
  qed
  finally show ?case .
qed

lemma hex_payload_pairs: "hex_payload p = hex_pairs p"
  using hex_fold [of 0 p "[]"] by (simp add: hex_payload_def)

text \<open>
  Claim C9. With quoting enabled, the line \<open>formatRecord\<close> produces is the line of the
  specification: the columns (the formatted timestamp if timestamps are enabled, the
  source, the payload as lower-case hexadecimal byte pairs separated by single spaces),
  each between double quotes with its double quotes doubled, joined by the delimiter. The
  witness evaluates the two literal cases: source \<open>dev0\<close>, timestamp text
  \<open>2024-01-01\<close>, payload 41 42 (hexadecimal) and delimiter comma; and a source with a
  double quote in it.
\<close>

theorem formatRecord_quoted:
  assumes "quoteStrings st"
  shows "formatRecord put_time st it =
           quoted_line (delimiter st)
             ((if includeTimestamp st then [put_time (timestampFormat st) (timestamp it)]
               else []) @ [source it, hex_pairs (payload it)])"
  using assms
  by (simp add: formatRecord_def Let_def appendColumn_quoted hex_payload_pairs
      quoted_line_def)

theorem formatRecord_quoted_witness:
  \<open>quoteStrings example_settings \<and>
   formatRecord example_put_time example_settings (example_item [0x41, 0x42]) =
     ''"2024-01-01","dev0","41 42"'' \<and>
   formatRecord example_put_time example_settings
     ((example_item [0x41, 0x42])\<lparr>source := ''a"b''\<rparr>) =
     ''"2024-01-01","a""b","41 42"''\<close>
  using formatRecord_quoted [of example_settings example_put_time "example_item [0x41, 0x42]"]
    formatRecord_quoted [of example_settings example_put_time
      \<open>(example_item [0x41, 0x42])\<lparr>source := ''a"b''\<rparr>\<close>]
  by (simp add: example_settings_def example_put_time_def example_item_def quoted_line_def
      quoted_def hex_byte_def hex_digit_def)

section \<open>The life cycle of a session\<close>

lemma stop_result:
  "stop r s =
     (if worker_m s = Executing \<and> r = RunThrows then Terminated
      else Alive \<lparr>running_m = False, worker_m = NoThread, cleanup_calls = cleanup_calls s + 1\<rparr>)"
  by (cases r; cases "worker_m s") (simp_all add: stop_def worker_ends_def Let_def)

lemma start_idle:
  "\<not> running_m s \<Longrightarrow> worker_m s = NoThread \<Longrightarrow>
   start s = Alive (s\<lparr>running_m := True, worker_m := Executing\<rparr>)"
  by (simp add: start_def Let_def)

lemma worker_ends_executing:
  "worker_m s = Executing \<Longrightarrow>
   worker_ends r s =
     (case r of RunReturns \<Rightarrow> Alive (s\<lparr>running_m := False, worker_m := Finished\<rparr>)
      | RunThrows \<Rightarrow> Terminated)"
  by (cases r) (simp_all add: worker_ends_def)

text \<open>
  Claim C7, as stated, fails. \<open>stop\<close> has no guard, so after one \<open>start\<close> and one run
  of the worker a second \<open>stop\<close> runs \<open>cleanup\<close> a second time. And when \<open>run\<close>
  throws, the process is terminated at the end of the worker thread, whether the worker
  ends before \<open>stop\<close> or while \<open>stop\<close> joins it: \<open>cleanup\<close> never runs.
\<close>

theorem stop_twice_counterexample:
  "and_then (and_then (and_then (start new_session) (worker_ends RunReturns))
      (stop RunReturns)) (stop RunReturns) =
     Alive \<lparr>running_m = False, worker_m = NoThread, cleanup_calls = 2\<rparr> \<and>
   and_then (start new_session) (worker_ends RunThrows) = Terminated \<and>
   and_then (start new_session) (stop RunThrows) = Terminated"
  by (simp add: and_then_def start_def new_session_def worker_ends_def stop_result Let_def)

text \<open>
  Claim C7, as the code has it. Every call of \<open>stop\<close> that returns has cleared the
  running flag, left the thread member not joinable and called \<open>cleanup\<close> exactly once.
  So one \<open>start\<close> of an idle session followed by one \<open>stop\<close> runs \<open>cleanup\<close>
  exactly once, whether \<open>run\<close> returns only after \<open>stop\<close> cleared the flag or had
  returned before \<open>stop\<close> was called.
\<close>

theorem stop_runs_cleanup_once:
  assumes "\<not> running_m s" and "worker_m s = NoThread"
  shows "and_then (start s) (stop RunReturns) =
           Alive (s\<lparr>cleanup_calls := cleanup_calls s + 1\<rparr>) \<and>
         and_then (and_then (start s) (worker_ends RunReturns)) (stop r) =
           Alive (s\<lparr>cleanup_calls := cleanup_calls s + 1\<rparr>) \<and>
         (\<forall>t t'. stop r t = Alive t' \<longrightarrow>
            \<not> running_m t' \<and> worker_m t' = NoThread \<and>
            cleanup_calls t' = cleanup_calls t + 1)"
  using assms
  by (auto simp: and_then_def start_idle worker_ends_executing stop_result split: if_splits)

theorem stop_runs_cleanup_once_witness:
  "\<not> running_m new_session \<and> worker_m new_session = NoThread \<and>
   and_then (start new_session) (stop RunReturns) =
     Alive \<lparr>running_m = False, worker_m = NoThread, cleanup_calls = 1\<rparr> \<and>
   stop RunReturns running_session =
     Alive \<lparr>running_m = False, worker_m = NoThread, cleanup_calls = 1\<rparr>"
proof -
  have idle: "\<not> running_m new_session" "worker_m new_session = NoThread"
    by (simp_all add: new_session_def)
  have st: "stop RunReturns running_session =
              Alive \<lparr>running_m = False, worker_m = NoThread, cleanup_calls = 1\<rparr>"
    by (simp add: stop_result running_session_def)
  from stop_runs_cleanup_once [OF idle, of RunReturns] idle st show ?thesis
    by (simp add: new_session_def)
qed

text \<open>
  Claim C8 at a session whose \<open>run\<close> throws (a \<open>FileSession\<close> whose input file cannot
  be opened): \<open>threadMain\<close> clears the running flag and rethrows, the exception leaves
  the entry function of the worker thread, and the process of the two sessions, the
  buffer and the writer is terminated; a \<open>stop\<close> that joins such a worker never returns.
\<close>

theorem producer_error_terminates_process:
  "start new_session = Alive running_session \<and>
   threadMain RunThrows running_session =
     (UncaughtException, running_session\<lparr>running_m := False\<rparr>) \<and>
   producer_ends 0 RunThrows example_process = Terminated \<and>
   stop RunThrows running_session = Terminated"
  by (simp add: start_def new_session_def running_session_def Let_def producer_ends_def
      example_process_def worker_ends_def stop_result)

end
